theory Spec2Isabelle
  imports Complex_Main
begin

section \<open>Python decimals, as the pricing code uses them\<close>

text \<open>
  \<^verbatim>\<open>compute_price\<close> and \<^verbatim>\<open>computed_price\<close> work on \<^verbatim>\<open>decimal.Decimal\<close> under
  Python's default context: 28 significant digits, ROUND_HALF_EVEN. A finite decimal is a
  signed coefficient and an exponent; its value is \<open>coeff * 10 ^ expo\<close>. Every operation
  computes the exact result and then rounds the coefficient to 28 digits.
\<close>

record decimal =
  coeff :: int
  expo :: int

definition cents :: "int \<Rightarrow> decimal" where
  \<comment> \<open>a value read from a \<^verbatim>\<open>DecimalField(decimal_places=2)\<close> column: \<^verbatim>\<open>Decimal('45.00')\<close> is \<open>cents 4500\<close>\<close>
  "cents n = \<lparr>coeff = n, expo = - 2\<rparr>"

definition Decimal :: "int \<Rightarrow> decimal" where
  \<comment> \<open>\<^verbatim>\<open>Decimal(n)\<close> of a Python int\<close>
  "Decimal n = \<lparr>coeff = n, expo = 0\<rparr>"

definition dec_val :: "decimal \<Rightarrow> rat" where
  "dec_val d = (if 0 \<le> expo d then of_int (coeff d * 10 ^ nat (expo d))
                else of_int (coeff d) / of_int (10 ^ nat (- expo d)))"

definition prec :: nat where
  "prec = 28"

fun ndigits :: "int \<Rightarrow> nat" where
  \<comment> \<open>\<^verbatim>\<open>len(str(n))\<close> for \<open>n \<ge> 0\<close>\<close>
  "ndigits n = (if n < 10 then 1 else Suc (ndigits (n div 10)))"

declare ndigits.simps [simp del]

definition round_half_even :: "int \<Rightarrow> nat \<Rightarrow> int" where
  \<comment> \<open>drop the last \<open>k\<close> digits of a coefficient, rounding half to even\<close>
  "round_half_even c k =
     (let p = 10 ^ k; q = c div p; r = c mod p
      in if 2 * r < p then q
         else if p < 2 * r then q + 1
         else if even q then q else q + 1)"

definition dec_fix :: "decimal \<Rightarrow> decimal" where
  \<comment> \<open>\<^verbatim>\<open>Decimal._fix\<close>: round to the context's precision\<close>
  "dec_fix d =
     (let n = ndigits \<bar>coeff d\<bar>
      in if prec < n then
           (let c = round_half_even (coeff d) (n - prec); e = expo d + int (n - prec)
            in if \<bar>c\<bar> = 10 ^ prec then \<lparr>coeff = c div 10, expo = e + 1\<rparr>
               else \<lparr>coeff = c, expo = e\<rparr>)
         else d)"

function strip_to_ideal :: "int \<Rightarrow> int \<Rightarrow> int \<Rightarrow> int \<times> int" where
  \<comment> \<open>an exact quotient is brought as close to the ideal exponent as its zeros allow\<close>
  "strip_to_ideal c e ideal =
     (if e < ideal \<and> c mod 10 = 0 then strip_to_ideal (c div 10) (e + 1) ideal else (c, e))"
  by pat_completeness auto
termination
  by (relation "measure (\<lambda>(c, e, ideal). nat (ideal - e))") auto

declare strip_to_ideal.simps [simp del]

definition dec_div :: "decimal \<Rightarrow> decimal \<Rightarrow> decimal" where
  \<comment> \<open>\<^verbatim>\<open>Decimal.__truediv__\<close>; the divisor is \<^verbatim>\<open>Decimal(15)\<close> at every call, so the
      division-by-zero signal is not a branch here\<close>
  "dec_div a b =
     (let s = (if (coeff a < 0) \<noteq> (coeff b < 0) then - 1 else 1);
          x = \<bar>coeff a\<bar>; y = \<bar>coeff b\<bar>
      in if x = 0 then dec_fix \<lparr>coeff = 0, expo = expo a - expo b\<rparr>
         else
           (let shift = int (ndigits y) - int (ndigits x) + int prec + 1;
                e = expo a - expo b - shift;
                num = (if 0 \<le> shift then x * 10 ^ nat shift else x);
                den = (if 0 \<le> shift then y else y * 10 ^ nat (- shift));
                q = num div den; r = num mod den
            in if r \<noteq> 0 then
                 dec_fix \<lparr>coeff = s * (if q mod 5 = 0 then q + 1 else q), expo = e\<rparr>
               else
                 (case strip_to_ideal q e (expo a - expo b) of
                    (q', e') \<Rightarrow> dec_fix \<lparr>coeff = s * q', expo = e'\<rparr>)))"

definition dec_mul :: "decimal \<Rightarrow> decimal \<Rightarrow> decimal" where
  \<comment> \<open>\<^verbatim>\<open>Decimal.__mul__\<close>\<close>
  "dec_mul a b = dec_fix \<lparr>coeff = coeff a * coeff b, expo = expo a + expo b\<rparr>"

definition dec_add :: "decimal \<Rightarrow> decimal \<Rightarrow> decimal" where
  \<comment> \<open>\<^verbatim>\<open>Decimal.__add__\<close>: align to the smaller exponent, add, round\<close>
  "dec_add a b =
     (let e = min (expo a) (expo b)
      in dec_fix \<lparr>coeff = coeff a * 10 ^ nat (expo a - e) + coeff b * 10 ^ nat (expo b - e),
              expo = e\<rparr>)"

definition dec_int :: "decimal \<Rightarrow> int" where
  \<comment> \<open>\<^verbatim>\<open>int(d)\<close>: truncation towards zero\<close>
  "dec_int d =
     (if 0 \<le> expo d then coeff d * 10 ^ nat (expo d)
      else sgn (coeff d) * (\<bar>coeff d\<bar> div 10 ^ nat (- expo d)))"

definition to_db :: "decimal \<Rightarrow> decimal" where
  \<comment> \<open>what a \<^verbatim>\<open>DecimalField(max_digits=10, decimal_places=2)\<close> column holds after a write:
      the value quantized to two places, half to even. The field refuses a value of more
      than ten digits; amounts of 100,000,000.00 and more are outside this model.\<close>
  "to_db d =
     (if - 2 \<le> expo d then \<lparr>coeff = coeff d * 10 ^ nat (expo d + 2), expo = - 2\<rparr>
      else \<lparr>coeff = round_half_even (coeff d) (nat (- 2 - expo d)), expo = - 2\<rparr>)"

section \<open>Pricing engine\<close>

text \<open>
  \<^verbatim>\<open>Appointment.compute_price\<close> and \<^verbatim>\<open>CartItem.computed_price\<close> have the same body:
  \<^verbatim>\<open>(Decimal(self.category.price_per_15min) / Decimal(15)) * Decimal(self.duration)\<close>.
\<close>

definition compute_price :: "decimal \<Rightarrow> int \<Rightarrow> decimal" where
  "compute_price price_per_15min duration =
     dec_mul (dec_div price_per_15min (Decimal 15)) (Decimal duration)"

definition computed_price :: "decimal \<Rightarrow> int \<Rightarrow> decimal" where
  "computed_price price_per_15min duration =
     dec_mul (dec_div price_per_15min (Decimal 15)) (Decimal duration)"


section \<open>Data model\<close>

text \<open>
  Rows are records, tables are lists or maps keyed by primary key. A date is its day
  number, a \<^verbatim>\<open>datetime.time\<close> is the number of microseconds since midnight; both orders
  are the orders Python compares by. The catalog is a total function: a request, a cart
  item and an order item refer to a category that exists (the serializer field resolves
  the key before any \<^verbatim>\<open>validate\<close> runs, and no operation below deletes a category).
  Creation timestamps and the category description play no part in the operations and
  are left out.
\<close>

type_synonym user_id = nat
type_synonym category_id = nat
type_synonym date = int
type_synonym time = int

definition dt_time :: "int \<Rightarrow> int \<Rightarrow> time" where
  "dt_time h m = (h * 60 + m) * 60 * 1000000"

definition day_us :: int where
  "day_us = 24 * 60 * 60 * 1000000"

definition WORKING_HOURS_START :: time where
  "WORKING_HOURS_START = dt_time 9 0"

definition WORKING_HOURS_END :: time where
  "WORKING_HOURS_END = dt_time 18 0"

record category =
  category_name :: string
  price_per_15min :: decimal

record appointment =
  appt_pk :: nat
  appt_user :: user_id
  appt_category :: category_id
  appt_date :: date
  appt_time :: time
  appt_duration :: int
  appt_total_price :: decimal
  appt_is_paid :: bool

record cart_item =
  ci_category :: category_id
  ci_date :: date
  ci_time :: time
  ci_duration :: int

datatype order_status = Pending | Paid | Failed | Cancelled

record order_item =
  oi_category :: category_id
  oi_category_name :: string
  oi_date :: date
  oi_time :: time
  oi_duration :: int
  oi_unit_price :: decimal
  oi_total_price :: decimal
  oi_appointment :: "nat option"

text \<open>
  \<^verbatim>\<open>OrderItem.order\<close> is a cascading foreign key with \<^verbatim>\<open>related_name='items'\<close>: the items
  of an order are kept inside the order, in creation order. A user's cart is the list
  of its items; \<open>None\<close> is \<^verbatim>\<open>Cart.DoesNotExist\<close>.
\<close>

record order =
  order_user :: user_id
  total_amount :: decimal
  status :: order_status
  stripe_payment_intent_id :: string
  items :: "order_item list"

record db =
  categories :: "category_id \<Rightarrow> category"
  appointments :: "appointment list"
  next_appointment_pk :: nat
  carts :: "user_id \<rightharpoonup> cart_item list"
  orders :: "nat \<rightharpoonup> order"
  next_order_pk :: nat

text \<open>The data a serializer validates: \<^verbatim>\<open>fields = ('category', 'date', 'time', 'duration')\<close>.\<close>

record data =
  data_category :: category_id
  data_date :: date
  data_time :: time
  data_duration :: int

datatype field = Field_date | Field_time | Field_duration

datatype serializer_error =
    FieldErrors "field list"
  | UniqueTogether
  | EndsAfterWorkingHours
  | SlotAlreadyBooked
  | PaidSlotAlreadyBooked

definition slot_conflict :: "serializer_error \<Rightarrow> bool" where
  \<comment> \<open>the two rejections that say the (category, date, time) triple is taken\<close>
  "slot_conflict e = (e = UniqueTogether \<or> e = SlotAlreadyBooked)"

datatype body =
    ValidationErrors serializer_error
  | AppointmentBody appointment
  | ErrorMsg string
  | ItemAdded
  | CheckoutBody string nat decimal
  | StatusOk

datatype response = Response (status_code: nat) (body: body)

definition slot :: "appointment \<Rightarrow> category_id \<times> date \<times> time" where
  "slot a = (appt_category a, appt_date a, appt_time a)"

definition unique_together :: "appointment list \<Rightarrow> bool" where
  \<comment> \<open>\<^verbatim>\<open>Appointment.Meta.unique_together = ('category', 'date', 'time')\<close>\<close>
  "unique_together as = distinct (map slot as)"

section \<open>Appointments: validation and booking\<close>

definition validate_date :: "date \<Rightarrow> date \<Rightarrow> bool" where
  \<comment> \<open>\<open>True\<close> when the value is returned, \<open>False\<close> when \<^verbatim>\<open>ValidationError\<close> is raised;
      the first argument is \<^verbatim>\<open>timezone.now().date()\<close>\<close>
  "validate_date today v = (\<not> v < today)"

definition validate_time :: "time \<Rightarrow> bool" where
  "validate_time v = (WORKING_HOURS_START \<le> v \<and> v < WORKING_HOURS_END)"

definition validate_duration :: "int \<Rightarrow> bool" where
  "validate_duration v = (v \<in> set [15, 30, 60, 120])"

definition slot_taken :: "appointment list \<Rightarrow> category_id \<Rightarrow> date \<Rightarrow> time \<Rightarrow> bool" where
  \<comment> \<open>\<^verbatim>\<open>Appointment.objects.filter(category=.., date=.., time=..).exists()\<close>\<close>
  "slot_taken as c d t = (filter (\<lambda>a. slot a = (c, d, t)) as \<noteq> [])"

definition appt_end :: "time \<Rightarrow> int \<Rightarrow> time" where
  \<comment> \<open>\<^verbatim>\<open>(datetime.combine(today, appt_time) + timedelta(minutes=appt_duration)).time()\<close>\<close>
  "appt_end t dur = (t + dur * 60 * 1000000) mod day_us"

definition validate :: "appointment list \<Rightarrow> data \<Rightarrow> serializer_error + data" where
  \<comment> \<open>\<^verbatim>\<open>CreateAppointmentSerializer.validate\<close> on a create (\<^verbatim>\<open>self.instance\<close> is \<^verbatim>\<open>None\<close>).
      A \<^verbatim>\<open>time\<close> is always truthy, an \<^verbatim>\<open>int\<close> is truthy unless it is 0.\<close>
  "validate as d =
     (if data_duration d \<noteq> 0 \<and> WORKING_HOURS_END < appt_end (data_time d) (data_duration d)
      then Inl EndsAfterWorkingHours
      else if slot_taken as (data_category d) (data_date d) (data_time d)
      then Inl SlotAlreadyBooked
      else Inr d)"

definition field_errors :: "date \<Rightarrow> data \<Rightarrow> field list" where
  \<comment> \<open>\<^verbatim>\<open>to_internal_value\<close>: every field's validator runs, the errors are collected\<close>
  "field_errors today d =
     (if validate_date today (data_date d) then [] else [Field_date]) @
     (if validate_time (data_time d) then [] else [Field_time]) @
     (if validate_duration (data_duration d) then [] else [Field_duration])"

definition run_validation :: "date \<Rightarrow> appointment list \<Rightarrow> data \<Rightarrow> serializer_error + data" where
  \<comment> \<open>\<^verbatim>\<open>CreateAppointmentSerializer(data=...).is_valid()\<close>: the field validators; then the
      validator a \<^verbatim>\<open>ModelSerializer\<close> derives from \<^verbatim>\<open>Meta.unique_together\<close>;
      then \<^verbatim>\<open>validate\<close>\<close>
  "run_validation today as d =
     (if field_errors today d \<noteq> [] then Inl (FieldErrors (field_errors today d))
      else if slot_taken as (data_category d) (data_date d) (data_time d) then Inl UniqueTogether
      else validate as d)"

definition save :: "db \<Rightarrow> appointment \<Rightarrow> appointment" where
  \<comment> \<open>\<^verbatim>\<open>Appointment.save\<close>: the price is recomputed from the category's current price;
      the column keeps two decimal places\<close>
  "save s a =
     a\<lparr>appt_total_price :=
         to_db (compute_price (price_per_15min (categories s (appt_category a))) (appt_duration a))\<rparr>"

definition insert_row :: "db \<Rightarrow> user_id \<Rightarrow> category_id \<Rightarrow> date \<Rightarrow> time \<Rightarrow> int \<Rightarrow> bool
    \<Rightarrow> appointment \<times> db" where
  \<comment> \<open>a new row, saved under the next primary key\<close>
  "insert_row s u c d t dur paid =
     (let a = save s \<lparr>appt_pk = next_appointment_pk s, appt_user = u, appt_category = c,
                      appt_date = d, appt_time = t, appt_duration = dur,
                      appt_total_price = Decimal 0, appt_is_paid = paid\<rparr>
      in (a, s\<lparr>appointments := appointments s @ [a],
               next_appointment_pk := Suc (next_appointment_pk s)\<rparr>))"

datatype db_error = IntegrityError

definition objects_create :: "db \<Rightarrow> user_id \<Rightarrow> data \<Rightarrow> db_error + appointment \<times> db" where
  \<comment> \<open>\<^verbatim>\<open>Appointment.objects.create(user=user, **validated_data)\<close>: the unique index
      refuses a second row for a triple; \<^verbatim>\<open>is_paid\<close> takes its default\<close>
  "objects_create s u d =
     (if slot_taken (appointments s) (data_category d) (data_date d) (data_time d)
      then Inl IntegrityError
      else Inr (insert_row s u (data_category d) (data_date d) (data_time d)
                  (data_duration d) False))"

definition create :: "db \<Rightarrow> date \<Rightarrow> user_id \<Rightarrow> data \<Rightarrow> response \<times> db" where
  \<comment> \<open>\<^verbatim>\<open>AppointmentCreateView.create\<close>\<close>
  "create s today u d =
     (case run_validation today (appointments s) d of
        Inl e \<Rightarrow> (Response 400 (ValidationErrors e), s)
      | Inr v \<Rightarrow>
          (case objects_create s u v of
             Inl _ \<Rightarrow> (Response 500 (ErrorMsg ''IntegrityError''), s)
           | Inr (a, s') \<Rightarrow> (Response 201 (AppointmentBody a), s')))"

section \<open>Cart\<close>

definition cart_total :: "db \<Rightarrow> cart_item list \<Rightarrow> decimal" where
  \<comment> \<open>\<^verbatim>\<open>Cart.total\<close>: \<^verbatim>\<open>sum(item.computed_price() for item in self.items.all())\<close>,
      the items priced from the catalog as it is now\<close>
  "cart_total s its =
     foldl (\<lambda>acc it. dec_add acc
              (computed_price (price_per_15min (categories s (ci_category it))) (ci_duration it)))
       (Decimal 0) its"

definition paid_slot_taken :: "appointment list \<Rightarrow> category_id \<Rightarrow> date \<Rightarrow> time \<Rightarrow> bool" where
  \<comment> \<open>\<^verbatim>\<open>Appointment.objects.filter(category=.., date=.., time=.., is_paid=True).exists()\<close>\<close>
  "paid_slot_taken as c d t = (filter (\<lambda>a. slot a = (c, d, t) \<and> appt_is_paid a) as \<noteq> [])"

definition add_validate :: "appointment list \<Rightarrow> data \<Rightarrow> serializer_error + data" where
  \<comment> \<open>\<^verbatim>\<open>AddToCartSerializer.validate\<close>\<close>
  "add_validate as d =
     (if paid_slot_taken as (data_category d) (data_date d) (data_time d)
      then Inl PaidSlotAlreadyBooked
      else Inr d)"

definition add_field_errors :: "date \<Rightarrow> data \<Rightarrow> field list" where
  \<comment> \<open>\<^verbatim>\<open>AddToCartSerializer\<close> declares \<^verbatim>\<open>validate_date\<close> and \<^verbatim>\<open>validate_duration\<close> only\<close>
  "add_field_errors today d =
     (if validate_date today (data_date d) then [] else [Field_date]) @
     (if validate_duration (data_duration d) then [] else [Field_duration])"

definition add_run_validation :: "date \<Rightarrow> appointment list \<Rightarrow> data \<Rightarrow> serializer_error + data" where
  \<comment> \<open>\<^verbatim>\<open>AddToCartSerializer(data=...).is_valid()\<close>; \<^verbatim>\<open>CartItem\<close> has no uniqueness rule\<close>
  "add_run_validation today as d =
     (if add_field_errors today d \<noteq> [] then Inl (FieldErrors (add_field_errors today d))
      else add_validate as d)"

definition cart_post :: "db \<Rightarrow> date \<Rightarrow> user_id \<Rightarrow> data \<Rightarrow> response \<times> db" where
  \<comment> \<open>\<^verbatim>\<open>CartView.post\<close>: the cart is created on first use, the item appended\<close>
  "cart_post s today u d =
     (case add_run_validation today (appointments s) d of
        Inl e \<Rightarrow> (Response 400 (ValidationErrors e), s)
      | Inr v \<Rightarrow>
          (let its = (case carts s u of None \<Rightarrow> [] | Some xs \<Rightarrow> xs);
               it = \<lparr>ci_category = data_category v, ci_date = data_date v,
                     ci_time = data_time v, ci_duration = data_duration v\<rparr>
           in (Response 201 ItemAdded, s\<lparr>carts := (carts s)(u \<mapsto> its @ [it])\<rparr>)))"

section \<open>Checkout\<close>

text \<open>
  The payment provider is outside the program: \<^verbatim>\<open>stripe.PaymentIntent.create\<close> is a
  parameter that maps the request either to a \<^verbatim>\<open>StripeError\<close> (its message) or to an
  intent.
\<close>

record intent_request =
  amount :: int
  currency :: string
  metadata_order_id :: nat
  metadata_user_id :: nat

record payment_intent =
  intent_id :: string
  client_secret :: string

definition snapshot :: "db \<Rightarrow> cart_item \<Rightarrow> order_item" where
  \<comment> \<open>the \<^verbatim>\<open>OrderItem.objects.create(...)\<close> of the checkout loop\<close>
  "snapshot s it =
     (let c = categories s (ci_category it)
      in \<lparr>oi_category = ci_category it, oi_category_name = category_name c,
          oi_date = ci_date it, oi_time = ci_time it, oi_duration = ci_duration it,
          oi_unit_price = to_db (price_per_15min c),
          oi_total_price = to_db (computed_price (price_per_15min c) (ci_duration it)),
          oi_appointment = None\<rparr>)"

definition checkout :: "(intent_request \<Rightarrow> string + payment_intent) \<Rightarrow> db \<Rightarrow> user_id
    \<Rightarrow> response \<times> db" where
  \<comment> \<open>\<^verbatim>\<open>CreateCheckoutSessionView.post\<close>\<close>
  "checkout stripe_create s u =
     (case carts s u of
        None \<Rightarrow> (Response 400 (ErrorMsg ''Cart is empty.''), s)
      | Some its \<Rightarrow>
          if its = [] then (Response 400 (ErrorMsg ''Cart is empty.''), s)
          else
            (let tot = cart_total s its
             in if coeff tot \<le> 0 then (Response 400 (ErrorMsg ''Invalid cart total.''), s)
                else
                  (let pk = next_order_pk s;
                       ord = \<lparr>order_user = u, total_amount = to_db tot, status = Pending,
                              stripe_payment_intent_id = [], items = map (snapshot s) its\<rparr>;
                       s1 = s\<lparr>orders := (orders s)(pk \<mapsto> ord), next_order_pk := Suc pk\<rparr>
                   in case stripe_create \<lparr>amount = dec_int (dec_mul tot (Decimal 100)),
                                           currency = ''usd'', metadata_order_id = pk,
                                           metadata_user_id = u\<rparr> of
                        Inl e \<Rightarrow>
                          (Response 502 (ErrorMsg (''Stripe error: '' @ e)),
                           s1\<lparr>orders := (orders s1)(pk := None)\<rparr>)
                      | Inr intent \<Rightarrow>
                          (Response 200 (CheckoutBody (client_secret intent) pk tot),
                           s1\<lparr>orders := (orders s1)(pk \<mapsto>
                                 ord\<lparr>stripe_payment_intent_id := intent_id intent\<rparr>)\<rparr>))))"

section \<open>Settlement webhook\<close>

text \<open>
  \<^verbatim>\<open>stripe.Webhook.construct_event\<close> either raises (\<open>None\<close>) or yields the event. Of the
  event the view reads its type and \<^verbatim>\<open>metadata.order_id\<close>, the decimal string that
  checkout wrote from \<^verbatim>\<open>order.pk\<close>, or nothing.
\<close>

record event =
  event_type :: string
  metadata_order :: "nat option"

definition get_or_create :: "db \<Rightarrow> user_id \<Rightarrow> order_item \<Rightarrow> appointment \<times> bool \<times> db" where
  \<comment> \<open>\<^verbatim>\<open>Appointment.objects.get_or_create(category=.., date=.., time=.., defaults={...})\<close>\<close>
  "get_or_create s u oi =
     (case find (\<lambda>a. slot a = (oi_category oi, oi_date oi, oi_time oi)) (appointments s) of
        Some a \<Rightarrow> (a, False, s)
      | None \<Rightarrow>
          (case insert_row s u (oi_category oi) (oi_date oi) (oi_time oi) (oi_duration oi) True of
             (a, s') \<Rightarrow> (a, True, s')))"

fun create_appointments :: "user_id \<Rightarrow> db \<Rightarrow> order_item list \<Rightarrow> db \<times> order_item list" where
  \<comment> \<open>the loop over \<^verbatim>\<open>order.items\<close>; an item is linked and saved only when its
      appointment was created\<close>
  "create_appointments u s [] = (s, [])"
| "create_appointments u s (oi # ois) =
     (case get_or_create s u oi of
        (a, created, s1) \<Rightarrow>
          (case create_appointments u s1 ois of
             (s2, ois') \<Rightarrow>
               ((s2, (if created then oi\<lparr>oi_appointment := Some (appt_pk a)\<rparr> else oi) # ois'))))"

definition get_pending :: "db \<Rightarrow> nat option \<Rightarrow> (nat \<times> order) option" where
  \<comment> \<open>\<^verbatim>\<open>Order.objects.get(pk=order_id, status='pending')\<close>; \<open>None\<close> is \<^verbatim>\<open>Order.DoesNotExist\<close>\<close>
  "get_pending s order_id =
     (case order_id of
        None \<Rightarrow> None
      | Some pk \<Rightarrow>
          (case orders s pk of
             None \<Rightarrow> None
           | Some ord \<Rightarrow> if status ord = Pending then Some (pk, ord) else None))"

definition clear_cart :: "db \<Rightarrow> user_id \<Rightarrow> db" where
  \<comment> \<open>\<^verbatim>\<open>order.user.cart.items.all().delete()\<close>, \<^verbatim>\<open>Cart.DoesNotExist\<close> passed over\<close>
  "clear_cart s u =
     (case carts s u of None \<Rightarrow> s | Some _ \<Rightarrow> s\<lparr>carts := (carts s)(u \<mapsto> [])\<rparr>)"

definition post :: "db \<Rightarrow> event option \<Rightarrow> response \<times> db" where
  \<comment> \<open>\<^verbatim>\<open>StripeWebhookView.post\<close>\<close>
  "post s ev =
     (case ev of
        None \<Rightarrow> (Response 400 (ErrorMsg ''Invalid webhook signature.''), s)
      | Some e \<Rightarrow>
          if event_type e = ''payment_intent.succeeded'' then
            (case get_pending s (metadata_order e) of
               None \<Rightarrow> (Response 404 (ErrorMsg ''Order not found.''), s)
             | Some (pk, ord) \<Rightarrow>
                 (let s1 = s\<lparr>orders := (orders s)(pk \<mapsto> ord\<lparr>status := Paid\<rparr>)\<rparr>
                  in case create_appointments (order_user ord) s1 (items ord) of
                       (s2, ois) \<Rightarrow>
                         (Response 200 StatusOk,
                          clear_cart
                            (s2\<lparr>orders := (orders s2)(pk \<mapsto> ord\<lparr>status := Paid, items := ois\<rparr>)\<rparr>)
                            (order_user ord))))
          else if event_type e = ''payment_intent.payment_failed'' then
            (case get_pending s (metadata_order e) of
               None \<Rightarrow> (Response 200 StatusOk, s)
             | Some (pk, ord) \<Rightarrow>
                 (Response 200 StatusOk, s\<lparr>orders := (orders s)(pk \<mapsto> ord\<lparr>status := Failed\<rparr>)\<rparr>))
          else (Response 200 StatusOk, s))"

section \<open>Catalog administration and example states\<close>

definition set_price :: "db \<Rightarrow> category_id \<Rightarrow> decimal \<Rightarrow> db" where
  \<comment> \<open>an admin's update of \<^verbatim>\<open>price_per_15min\<close> through \<^verbatim>\<open>CategoryAdminDetailView\<close>\<close>
  "set_price s c p =
     s\<lparr>categories := (categories s)(c := (categories s c)\<lparr>price_per_15min := to_db p\<rparr>)\<rparr>"

definition acknowledged :: "response \<Rightarrow> bool" where
  \<comment> \<open>the provider takes a 2xx answer as delivered and anything else as a failed delivery\<close>
  "acknowledged r = (200 \<le> status_code r \<and> status_code r < 300)"

definition db0 :: db where
  \<comment> \<open>one price for every category, nothing booked, no carts, no orders\<close>
  "db0 = \<lparr>categories = (\<lambda>_. \<lparr>category_name = ''Immigration'', price_per_15min = cents 4500\<rparr>),
          appointments = [], next_appointment_pk = 1,
          carts = Map.empty, orders = Map.empty, next_order_pk = 1\<rparr>"

definition succeeded :: "nat option \<Rightarrow> event" where
  "succeeded k = \<lparr>event_type = ''payment_intent.succeeded'', metadata_order = k\<rparr>"

definition payment_failed :: "nat option \<Rightarrow> event" where
  "payment_failed k = \<lparr>event_type = ''payment_intent.payment_failed'', metadata_order = k\<rparr>"

definition oi_slot :: "order_item \<Rightarrow> category_id \<times> date \<times> time" where
  "oi_slot oi = (oi_category oi, oi_date oi, oi_time oi)"

definition data_slot :: "data \<Rightarrow> category_id \<times> date \<times> time" where
  "data_slot d = (data_category d, data_date d, data_time d)"

definition booking :: "category_id \<Rightarrow> int \<Rightarrow> data" where
  \<comment> \<open>a request for day 100 at 10:00\<close>
  "booking c dur = \<lparr>data_category = c, data_date = 100, data_time = dt_time 10 0,
                     data_duration = dur\<rparr>"

definition appt1 :: appointment where
  \<comment> \<open>the row that booking category 1 for 60 minutes creates in \<open>db0\<close>\<close>
  "appt1 = \<lparr>appt_pk = 1, appt_user = 7, appt_category = 1, appt_date = 100,
            appt_time = dt_time 10 0, appt_duration = 60, appt_total_price = cents 18000,
            appt_is_paid = False\<rparr>"

definition item1 :: order_item where
  "item1 = \<lparr>oi_category = 1, oi_category_name = ''Immigration'', oi_date = 100,
            oi_time = dt_time 10 0, oi_duration = 60, oi_unit_price = cents 4500,
            oi_total_price = cents 18000, oi_appointment = None\<rparr>"

definition order1 :: order where
  "order1 = \<lparr>order_user = 8, total_amount = cents 18000, status = Pending,
             stripe_payment_intent_id = ''pi_1'', items = [item1]\<rparr>"

definition citem1 :: cart_item where
  "citem1 = \<lparr>ci_category = 1, ci_date = 100, ci_time = dt_time 10 0, ci_duration = 60\<rparr>"

definition db1 :: db where
  \<comment> \<open>user 8 has checked out one item; order 1 is pending\<close>
  "db1 = db0\<lparr>carts := [8 \<mapsto> [citem1]], orders := [1 \<mapsto> order1], next_order_pk := 2\<rparr>"


datatype mutation =
    SetPrice category_id decimal
  | CartAdd date user_id data
  | CartClear user_id

fun apply_mutation :: "db \<Rightarrow> mutation \<Rightarrow> db" where
  \<comment> \<open>what can happen to the catalog and to carts after a checkout: a price update,
      \<^verbatim>\<open>CartView.post\<close>, \<^verbatim>\<open>ClearCartView.delete\<close>\<close>
  "apply_mutation s (SetPrice c p) = set_price s c p"
| "apply_mutation s (CartAdd today u d) = snd (cart_post s today u d)"
| "apply_mutation s (CartClear u) = clear_cart s u"

definition stripe_ok :: "intent_request \<Rightarrow> string + payment_intent" where
  \<comment> \<open>a provider that accepts every request\<close>
  "stripe_ok rq = Inr \<lparr>intent_id = ''pi_2'', client_secret = ''cs_2''\<rparr>"

definition stripe_down :: "intent_request \<Rightarrow> string + payment_intent" where
  \<comment> \<open>a provider that fails every request\<close>
  "stripe_down rq = Inl ''connection refused''"

definition db3 :: db where
  \<comment> \<open>\<open>db1\<close> after the price of category 1 went from 45.00 to 50.00\<close>
  "db3 = set_price db1 1 (cents 5000)"

section \<open>Pricing: what the decimal arithmetic returns\<close>

lemmas decimal_eval =
  compute_price_def computed_price_def dec_mul_def dec_div_def dec_fix_def cents_def
  Decimal_def prec_def ndigits.simps round_half_even_def strip_to_ideal.simps Let_def

lemma compute_price_45_60: "compute_price (cents 4500) 60 = cents 18000"
  by (simp add: decimal_eval)

text \<open>
  C7. The claim: for every unit price and every duration in 15, 30, 60, 120 the computed
  price equals unit / 15 * duration exactly. The code divides first, and the quotient
  is rounded to 28 digits before it is multiplied: for a unit price of 20.00 and 30
  minutes, \<^verbatim>\<open>compute_price\<close> and \<^verbatim>\<open>computed_price\<close> return 39.99999999999999999999999999,
  which is not 40, and the amount that checkout derives from it is 3999 cents.
\<close>

theorem compute_price_rounding_drift:
  "compute_price (cents 2000) 30 = \<lparr>coeff = 3999999999999999999999999999, expo = - 26\<rparr> \<and>
   computed_price (cents 2000) 30 = \<lparr>coeff = 3999999999999999999999999999, expo = - 26\<rparr> \<and>
   dec_val (compute_price (cents 2000) 30) \<noteq> dec_val (cents 2000) / 15 * 30 \<and>
   dec_int (dec_mul (computed_price (cents 2000) 30) (Decimal 100)) = 3999"
proof -
  have a: "compute_price (cents 2000) 30 = \<lparr>coeff = 3999999999999999999999999999, expo = - 26\<rparr>"
    by (simp add: decimal_eval)
  have b: "computed_price (cents 2000) 30 = \<lparr>coeff = 3999999999999999999999999999, expo = - 26\<rparr>"
    by (simp add: decimal_eval)
  have c: "dec_val \<lparr>coeff = 3999999999999999999999999999, expo = - 26\<rparr>
             \<noteq> dec_val (cents 2000) / 15 * 30"
    by (simp add: dec_val_def cents_def)
  have d: "dec_int (dec_mul \<lparr>coeff = 3999999999999999999999999999, expo = - 26\<rparr> (Decimal 100))
             = 3999"
    by (simp add: dec_int_def decimal_eval)
  show ?thesis using a b c d by simp
qed

section \<open>Validation\<close>

lemmas validation_eval =
  run_validation_def field_errors_def validate_date_def validate_time_def
  validate_duration_def validate_def slot_taken_def appt_end_def WORKING_HOURS_START_def
  WORKING_HOURS_END_def dt_time_def day_us_def add_run_validation_def add_field_errors_def
  add_validate_def paid_slot_taken_def

text \<open>
  C1. The claim: a booking or cart request whose end time start + duration equals 18:00
  is rejected. \<^verbatim>\<open>validate\<close> compares with \<^verbatim>\<open>appt_end > WORKING_HOURS_END\<close>: a start at
  16:00 with 120 minutes ends at 18:00 exactly and is accepted by the booking
  serializer, and by the cart serializer, which has no check of the time at all.
\<close>

theorem ends_at_closing_time_accepted:
  "appt_end (dt_time 16 0) 120 = WORKING_HOURS_END \<and>
   run_validation today []
     \<lparr>data_category = c, data_date = today, data_time = dt_time 16 0, data_duration = 120\<rparr>
     = Inr \<lparr>data_category = c, data_date = today, data_time = dt_time 16 0,
            data_duration = 120\<rparr> \<and>
   add_run_validation today []
     \<lparr>data_category = c, data_date = today, data_time = dt_time 16 0, data_duration = 120\<rparr>
     = Inr \<lparr>data_category = c, data_date = today, data_time = dt_time 16 0,
            data_duration = 120\<rparr>"
  by (simp add: validation_eval)

text \<open>
  C2. The claim: adding to the cart accepts exactly what the booking validation accepts,
  with the paid-slot guard on top. \<^verbatim>\<open>AddToCartSerializer\<close> validates the date and the
  duration only: a start at 03:00 is accepted for the cart, while the booking
  serializer rejects it on the field \<^verbatim>\<open>time\<close>.
\<close>

theorem cart_add_accepts_outside_working_hours:
  "add_run_validation today []
     \<lparr>data_category = c, data_date = today, data_time = dt_time 3 0, data_duration = 15\<rparr>
     = Inr \<lparr>data_category = c, data_date = today, data_time = dt_time 3 0, data_duration = 15\<rparr> \<and>
   run_validation today []
     \<lparr>data_category = c, data_date = today, data_time = dt_time 3 0, data_duration = 15\<rparr>
     = Inl (FieldErrors [Field_time])"
  by (simp add: validation_eval)

section \<open>Webhook events without a pending order\<close>

text \<open>
  C3, as stated: an event whose order is absent or no longer pending changes nothing and
  is not answered with a failure. In the empty database the succeeded event for order 7
  finds no pending order, and the answer is not a 2xx.
\<close>

theorem webhook_order_not_found_counterexample:
  "get_pending db0 (Some 7) = None \<and>
   \<not> (snd (post db0 (Some (succeeded (Some 7)))) = db0 \<and>
      acknowledged (fst (post db0 (Some (succeeded (Some 7))))))"
  by (simp add: get_pending_def db0_def post_def succeeded_def acknowledged_def)

text \<open>
  C3, amended: when no pending order matches, neither event changes the state; the
  failed event is acknowledged with 200, the succeeded event is answered with
  404 "Order not found.".
\<close>

theorem webhook_order_not_found:
  assumes "get_pending s k = None"
  shows "post s (Some (succeeded k)) = (Response 404 (ErrorMsg ''Order not found.''), s) \<and>
         post s (Some (payment_failed k)) = (Response 200 StatusOk, s)"
  using assms by (simp add: post_def succeeded_def payment_failed_def)

text \<open>C3, witness: order 7 in the empty database.\<close>

theorem webhook_order_not_found_witness:
  "get_pending db0 (Some 7) = None \<and>
   post db0 (Some (succeeded (Some 7))) = (Response 404 (ErrorMsg ''Order not found.''), db0) \<and>
   post db0 (Some (payment_failed (Some 7))) = (Response 200 StatusOk, db0)"
proof -
  have h: "get_pending db0 (Some 7) = None"
    by (simp add: get_pending_def db0_def)
  show ?thesis using h webhook_order_not_found [OF h] by simp
qed

section \<open>Slots, rows and the settlement loop\<close>

lemma slot_taken_iff: "slot_taken as c d t \<longleftrightarrow> (c, d, t) \<in> slot ` set as"
  by (auto simp: slot_taken_def filter_empty_conv image_iff) metis+


lemma filter_slot_single:
  "distinct (map f xs) \<Longrightarrow> x \<in> set xs \<Longrightarrow> filter (\<lambda>a. f a = f x) xs = [x]"
proof (induction xs)
  case Nil
  then show ?case by simp
next
  case (Cons y ys)
  show ?case
  proof (cases "y = x")
    case True
    with Cons.prems have "\<forall>a \<in> set ys. f a \<noteq> f x" by (auto simp: image_iff)
    then have "filter (\<lambda>a. f a = f x) ys = []" by (simp add: filter_empty_conv)
    with True show ?thesis by simp
  next
    case False
    with Cons.prems have "x \<in> set ys" "f y \<noteq> f x" by auto
    with Cons show ?thesis by simp
  qed
qed

lemma insert_row_appointments:
  "insert_row s u c d t dur paid = (a, s') \<Longrightarrow>
     appointments s' = appointments s @ [a] \<and> slot a = (c, d, t) \<and> appt_is_paid a = paid \<and>
     appt_user a = u \<and> appt_duration a = dur \<and> appt_pk a = next_appointment_pk s \<and>
     appt_total_price a = to_db (compute_price (price_per_15min (categories s c)) dur)"
  by (auto simp: insert_row_def save_def slot_def Let_def)

lemma insert_row_frame:
  "insert_row s u c d t dur paid = (a, s') \<Longrightarrow>
     categories s' = categories s \<and> carts s' = carts s \<and> orders s' = orders s \<and>
     next_order_pk s' = next_order_pk s \<and> next_appointment_pk s' = Suc (next_appointment_pk s)"
  by (auto simp: insert_row_def Let_def)

lemma get_or_create_found:
  "get_or_create s u oi = (a, False, s') \<Longrightarrow>
     s' = s \<and> a \<in> set (appointments s) \<and> slot a = (oi_category oi, oi_date oi, oi_time oi)"
  by (auto simp: get_or_create_def split: option.splits prod.splits dest: find_Some_iff[THEN iffD1])

lemma get_or_create_created:
  "get_or_create s u oi = (a, True, s') \<Longrightarrow>
     \<not> slot_taken (appointments s) (oi_category oi) (oi_date oi) (oi_time oi) \<and>
     insert_row s u (oi_category oi) (oi_date oi) (oi_time oi) (oi_duration oi) True = (a, s')"
  by (auto simp: get_or_create_def slot_taken_iff find_None_iff split: option.splits prod.splits)

lemma get_or_create_taken:
  "slot_taken (appointments s) (oi_category oi) (oi_date oi) (oi_time oi) \<Longrightarrow>
     \<exists>a. get_or_create s u oi = (a, False, s)"
  by (auto simp: get_or_create_def slot_taken_iff find_None_iff split: option.splits prod.splits)

lemma create_appointments_frame:
  "create_appointments u s ois = (s2, ois') \<Longrightarrow>
     categories s2 = categories s \<and> carts s2 = carts s \<and> orders s2 = orders s \<and>
     next_order_pk s2 = next_order_pk s"
proof (induction ois arbitrary: s s2 ois')
  case Nil
  then show ?case by simp
next
  case (Cons oi ois)
  obtain a created s1 where g: "get_or_create s u oi = (a, created, s1)"
    by (metis prod_cases3)
  obtain s3 ois3 where r: "create_appointments u s1 ois = (s3, ois3)"
    by (metis surj_pair)
  from Cons.prems g r have s2: "s2 = s3" by simp
  have "categories s1 = categories s \<and> carts s1 = carts s \<and> orders s1 = orders s \<and>
     next_order_pk s1 = next_order_pk s"
  proof (cases created)
    case True
    with g have "get_or_create s u oi = (a, True, s1)" by simp
    then show ?thesis using get_or_create_created insert_row_frame by blast
  next
    case False
    with g have "get_or_create s u oi = (a, False, s1)" by simp
    then show ?thesis using get_or_create_found by blast
  qed
  with Cons.IH[OF r] s2 show ?case by simp
qed

lemma get_or_create_frame:
  assumes "get_or_create s u oi = (a, created, s1)"
  shows "categories s1 = categories s \<and> carts s1 = carts s \<and> orders s1 = orders s \<and>
     next_order_pk s1 = next_order_pk s"
proof (cases created)
  case True
  with assms have "get_or_create s u oi = (a, True, s1)" by simp
  then show ?thesis using get_or_create_created insert_row_frame by blast
next
  case False
  with assms have "get_or_create s u oi = (a, False, s1)" by simp
  then show ?thesis using get_or_create_found by blast
qed



lemma get_or_create_grows:
  assumes "get_or_create s u oi = (a, created, s1)"
  shows "\<exists>new. appointments s1 = appointments s @ new \<and>
     (\<forall>b \<in> set new. appt_is_paid b \<and> appt_user b = u \<and>
        appt_total_price b =
          to_db (compute_price (price_per_15min (categories s (appt_category b))) (appt_duration b)))"
proof (cases created)
  case True
  with assms have "get_or_create s u oi = (a, True, s1)" by simp
  then have i: "insert_row s u (oi_category oi) (oi_date oi) (oi_time oi) (oi_duration oi) True = (a, s1)"
    using get_or_create_created by blast
  from insert_row_appointments[OF i] show ?thesis by (auto simp: slot_def)
next
  case False
  with assms have "get_or_create s u oi = (a, False, s1)" by simp
  then have "s1 = s" using get_or_create_found by blast
  then show ?thesis by simp
qed


lemma create_appointments_grows:
  "create_appointments u s ois = (s2, ois') \<Longrightarrow>
     \<exists>new. appointments s2 = appointments s @ new \<and>
       (\<forall>b \<in> set new. appt_is_paid b \<and> appt_user b = u \<and>
          appt_total_price b =
            to_db (compute_price (price_per_15min (categories s (appt_category b))) (appt_duration b)))"
proof (induction ois arbitrary: s s2 ois')
  case Nil
  then show ?case by simp
next
  case (Cons oi ois)
  obtain a created s1 where g: "get_or_create s u oi = (a, created, s1)"
    by (metis prod_cases3)
  obtain s3 ois3 where r: "create_appointments u s1 ois = (s3, ois3)"
    by (metis surj_pair)
  from Cons.prems g r have s2: "s2 = s3" by simp
  have c: "categories s1 = categories s"
    using g get_or_create_frame by blast
  from get_or_create_grows[OF g] obtain n1 where
    n1: "appointments s1 = appointments s @ n1"
      "\<forall>b \<in> set n1. appt_is_paid b \<and> appt_user b = u \<and>
        appt_total_price b =
          to_db (compute_price (price_per_15min (categories s (appt_category b))) (appt_duration b))"
    by blast
  from Cons.IH[OF r] c obtain n2 where
    n2: "appointments s3 = appointments s1 @ n2"
      "\<forall>b \<in> set n2. appt_is_paid b \<and> appt_user b = u \<and>
        appt_total_price b =
          to_db (compute_price (price_per_15min (categories s (appt_category b))) (appt_duration b))"
    by auto
  from n1 n2 s2 have "appointments s2 = appointments s @ (n1 @ n2)" by simp
  moreover from n1 n2 have "\<forall>b \<in> set (n1 @ n2). appt_is_paid b \<and> appt_user b = u \<and>
        appt_total_price b =
          to_db (compute_price (price_per_15min (categories s (appt_category b))) (appt_duration b))"
    by auto
  ultimately show ?case by blast
qed


lemma slot_taken_append:
  "slot_taken (xs @ ys) c d t \<longleftrightarrow> slot_taken xs c d t \<or> slot_taken ys c d t"
  by (auto simp: slot_taken_def filter_empty_conv)

lemma create_appointments_items:
  "create_appointments u s ois = (s2, ois') \<Longrightarrow>
     length ois' = length ois \<and>
     (\<forall>i < length ois.
        ois' ! i = ois ! i \<or>
        (\<exists>a \<in> set (appointments s2).
           ois' ! i = (ois ! i)\<lparr>oi_appointment := Some (appt_pk a)\<rparr> \<and>
           slot a = oi_slot (ois ! i) \<and> appt_duration a = oi_duration (ois ! i) \<and>
           appt_is_paid a \<and> appt_user a = u \<and>
           appt_total_price a =
             to_db (compute_price (price_per_15min (categories s (oi_category (ois ! i))))
                      (oi_duration (ois ! i))) \<and>
           \<not> slot_taken (appointments s) (oi_category (ois ! i)) (oi_date (ois ! i))
                (oi_time (ois ! i))))"
proof (induction ois arbitrary: s s2 ois')
  case Nil
  then show ?case by simp
next
  case (Cons oi ois)
  obtain a created s1 where g: "get_or_create s u oi = (a, created, s1)"
    by (metis prod_cases3)
  obtain s3 ois3 where r: "create_appointments u s1 ois = (s3, ois3)"
    by (metis surj_pair)
  let ?oi' = "if created then oi\<lparr>oi_appointment := Some (appt_pk a)\<rparr> else oi"
  from Cons.prems g r have s2: "s2 = s3" and ois': "ois' = ?oi' # ois3" by simp_all
  have c: "categories s1 = categories s" using get_or_create_frame[OF g] by simp
  from get_or_create_grows[OF g] obtain n1 where n1: "appointments s1 = appointments s @ n1"
    by blast
  from create_appointments_grows[OF r] obtain n2 where n2: "appointments s3 = appointments s1 @ n2"
    by blast
  note ih = Cons.IH[OF r]
  have len: "length ois' = length (oi # ois)" using ih ois' by simp
  have "ois' ! i = (oi # ois) ! i \<or>
        (\<exists>a \<in> set (appointments s2).
           ois' ! i = ((oi # ois) ! i)\<lparr>oi_appointment := Some (appt_pk a)\<rparr> \<and>
           slot a = oi_slot ((oi # ois) ! i) \<and> appt_duration a = oi_duration ((oi # ois) ! i) \<and>
           appt_is_paid a \<and> appt_user a = u \<and>
           appt_total_price a =
             to_db (compute_price (price_per_15min (categories s (oi_category ((oi # ois) ! i))))
                      (oi_duration ((oi # ois) ! i))) \<and>
           \<not> slot_taken (appointments s) (oi_category ((oi # ois) ! i)) (oi_date ((oi # ois) ! i))
                (oi_time ((oi # ois) ! i)))"
    if i: "i < length (oi # ois)" for i
  proof (cases i)
    case 0
    show ?thesis
    proof (cases created)
      case True
      with g have g': "get_or_create s u oi = (a, True, s1)" by simp
      from get_or_create_created[OF g'] have
        nt: "\<not> slot_taken (appointments s) (oi_category oi) (oi_date oi) (oi_time oi)" and
        ir: "insert_row s u (oi_category oi) (oi_date oi) (oi_time oi) (oi_duration oi) True = (a, s1)"
        by simp_all
      from insert_row_appointments[OF ir] n2 s2 have "a \<in> set (appointments s2)" by simp
      with insert_row_appointments[OF ir] nt True 0 ois' show ?thesis
        by (auto simp: oi_slot_def)
    next
      case False
      with 0 ois' show ?thesis by simp
    qed
  next
    case (Suc j)
    with i have j: "j < length ois" by simp
    from ih j have "ois3 ! j = ois ! j \<or>
        (\<exists>a \<in> set (appointments s3).
           ois3 ! j = (ois ! j)\<lparr>oi_appointment := Some (appt_pk a)\<rparr> \<and>
           slot a = oi_slot (ois ! j) \<and> appt_duration a = oi_duration (ois ! j) \<and>
           appt_is_paid a \<and> appt_user a = u \<and>
           appt_total_price a =
             to_db (compute_price (price_per_15min (categories s1 (oi_category (ois ! j))))
                      (oi_duration (ois ! j))) \<and>
           \<not> slot_taken (appointments s1) (oi_category (ois ! j)) (oi_date (ois ! j))
                (oi_time (ois ! j)))"
      by blast
    with Suc ois' s2 c n1 show ?thesis
      by (auto simp: slot_taken_append)
  qed
  with len show ?case by blast
qed


lemma clear_cart_frame:
  "appointments (clear_cart s u) = appointments s"
  "orders (clear_cart s u) = orders s"
  "categories (clear_cart s u) = categories s"
  "next_order_pk (clear_cart s u) = next_order_pk s"
  "next_appointment_pk (clear_cart s u) = next_appointment_pk s"
  by (simp_all add: clear_cart_def split: option.splits)

lemma get_pending_Some:
  "orders s pk = Some ord \<Longrightarrow> status ord = Pending \<Longrightarrow> get_pending s (Some pk) = Some (pk, ord)"
  by (simp add: get_pending_def)


lemma post_succeeded_pending:
  assumes "orders s pk = Some ord" "status ord = Pending"
  shows "\<exists>s2 ois.
     create_appointments (order_user ord) (s\<lparr>orders := (orders s)(pk \<mapsto> ord\<lparr>status := Paid\<rparr>)\<rparr>)
       (items ord) = (s2, ois) \<and>
     post s (Some (succeeded (Some pk))) =
       (Response 200 StatusOk,
        clear_cart (s2\<lparr>orders := (orders s2)(pk \<mapsto> ord\<lparr>status := Paid, items := ois\<rparr>)\<rparr>)
          (order_user ord))"
proof -
  obtain s2 ois where
    "create_appointments (order_user ord) (s\<lparr>orders := (orders s)(pk \<mapsto> ord\<lparr>status := Paid\<rparr>)\<rparr>)
       (items ord) = (s2, ois)"
    by (metis surj_pair)
  with get_pending_Some[OF assms] show ?thesis
    by (simp add: post_def succeeded_def Let_def)
qed

section \<open>Settlement\<close>




lemma create_accepted:
  assumes "create s today u d = (Response 201 (AppointmentBody a), s1)"
  shows "run_validation today (appointments s) d = Inr d \<and>
         \<not> slot_taken (appointments s) (data_category d) (data_date d) (data_time d) \<and>
         insert_row s u (data_category d) (data_date d) (data_time d) (data_duration d) False = (a, s1)"
  using assms
  by (auto simp: create_def objects_create_def run_validation_def validate_def
      split: sum.splits if_splits prod.splits)

lemma create_slot_free:
  assumes "run_validation today (appointments s) d = Inr d"
  shows "\<exists>a s1. create s today u d = (Response 201 (AppointmentBody a), s1) \<and>
           insert_row s u (data_category d) (data_date d) (data_time d) (data_duration d) False = (a, s1)"
proof -
  from assms have "\<not> slot_taken (appointments s) (data_category d) (data_date d) (data_time d)"
    by (auto simp: run_validation_def validate_def split: if_splits)
  moreover obtain a s1 where
    "insert_row s u (data_category d) (data_date d) (data_time d) (data_duration d) False = (a, s1)"
    by (metis surj_pair)
  ultimately show ?thesis using assms by (simp add: create_def objects_create_def)
qed

lemma create_unique:
  assumes "unique_together (appointments s)"
  shows "unique_together (appointments (snd (create s today u d)))"
proof (cases "run_validation today (appointments s) d")
  case (Inl e)
  with assms show ?thesis by (simp add: create_def)
next
  case (Inr v)
  then have v: "v = d" by (auto simp: run_validation_def validate_def split: if_splits)
  from create_slot_free[of today s d u] Inr v obtain a s1 where
    c: "create s today u d = (Response 201 (AppointmentBody a), s1)" by blast
  from create_accepted[OF c] insert_row_appointments[of s u _ _ _ _ False a s1] assms
  show ?thesis using c by (auto simp: unique_together_def slot_taken_iff)
qed

section \<open>Booking\<close>

text \<open>
  C4. After a booking for (category, date, time) has succeeded: no triple has more than
  one appointment; a second booking for the same triple is rejected and leaves the
  state as it is, whoever asks and whatever the duration, and with a slot-conflict
  error whenever its fields are valid; a booking for another category at the same date
  and time, with a valid duration that ends within working hours and a free slot of
  its own, succeeds.
\<close>

theorem double_booking_rejected:
  assumes uniq: "unique_together (appointments s)"
    and first: "create s today u d1 = (Response 201 (AppointmentBody a), s1)"
  shows "(\<forall>k. length (filter (\<lambda>b. slot b = k) (appointments s1)) \<le> 1) \<and>
    (\<forall>today' u' d2. data_slot d2 = data_slot d1 \<longrightarrow>
       (\<exists>e. create s1 today' u' d2 = (Response 400 (ValidationErrors e), s1) \<and>
            (field_errors today' d2 = [] \<longrightarrow> slot_conflict e))) \<and>
    (\<forall>u' d3. data_category d3 \<noteq> data_category d1 \<and> data_date d3 = data_date d1 \<and>
         data_time d3 = data_time d1 \<and> validate_duration (data_duration d3) \<and>
         appt_end (data_time d3) (data_duration d3) \<le> WORKING_HOURS_END \<and>
         \<not> slot_taken (appointments s) (data_category d3) (data_date d3) (data_time d3) \<longrightarrow>
       (\<exists>a' s2. create s1 today u' d3 = (Response 201 (AppointmentBody a'), s2) \<and>
          slot a' = data_slot d3 \<and> appt_user a' = u' \<and>
          appointments s2 = appointments s1 @ [a']))"
proof -
  from create_accepted[OF first] have
    rv: "run_validation today (appointments s) d1 = Inr d1" and
    ir: "insert_row s u (data_category d1) (data_date d1) (data_time d1) (data_duration d1) False
           = (a, s1)"
    by simp_all
  from insert_row_appointments[OF ir] have
    as1: "appointments s1 = appointments s @ [a]" and sa: "slot a = data_slot d1"
    by (simp_all add: data_slot_def)
  have u1: "unique_together (appointments s1)"
    using create_unique[OF uniq, of today u d1] first by simp
  have one: "length (filter (\<lambda>b. slot b = k) (appointments s1)) \<le> 1" for k
  proof (cases "k \<in> slot ` set (appointments s1)")
    case True
    then obtain b where b: "b \<in> set (appointments s1)" "slot b = k" by auto
    from u1 have "distinct (map slot (appointments s1))" by (simp add: unique_together_def)
    from filter_slot_single[OF this b(1)] b(2) show ?thesis by simp
  next
    case False
    then have "filter (\<lambda>b. slot b = k) (appointments s1) = []"
      by (auto simp: filter_empty_conv)
    then show ?thesis by simp
  qed
  have second: "\<exists>e. create s1 today' u' d2 = (Response 400 (ValidationErrors e), s1) \<and>
            (field_errors today' d2 = [] \<longrightarrow> slot_conflict e)"
    if "data_slot d2 = data_slot d1" for today' u' d2
  proof -
    from that as1 sa have "slot_taken (appointments s1) (data_category d2) (data_date d2) (data_time d2)"
      by (auto simp: slot_taken_iff data_slot_def)
    then show ?thesis
      by (simp add: create_def run_validation_def slot_conflict_def)
  qed
  have third: "\<exists>a' s2. create s1 today u' d3 = (Response 201 (AppointmentBody a'), s2) \<and>
          slot a' = data_slot d3 \<and> appt_user a' = u' \<and> appointments s2 = appointments s1 @ [a']"
    if h: "data_category d3 \<noteq> data_category d1 \<and> data_date d3 = data_date d1 \<and>
         data_time d3 = data_time d1 \<and> validate_duration (data_duration d3) \<and>
         appt_end (data_time d3) (data_duration d3) \<le> WORKING_HOURS_END \<and>
         \<not> slot_taken (appointments s) (data_category d3) (data_date d3) (data_time d3)"
    for u' d3
  proof -
    from rv have f1: "field_errors today d1 = []"
      by (auto simp: run_validation_def split: if_splits)
    then have "validate_date today (data_date d1)" "validate_time (data_time d1)"
      by (auto simp: field_errors_def split: if_splits)
    with h have f3: "field_errors today d3 = []" by (simp add: field_errors_def)
    from h as1 sa have nt: "\<not> slot_taken (appointments s1) (data_category d3) (data_date d3) (data_time d3)"
      by (auto simp: slot_taken_iff data_slot_def)
    from h have "appt_end (data_time d3) (data_duration d3) \<le> WORKING_HOURS_END" by blast
    then have "\<not> WORKING_HOURS_END < appt_end (data_time d3) (data_duration d3)" by linarith
    with f3 nt have "run_validation today (appointments s1) d3 = Inr d3"
      by (simp add: run_validation_def validate_def)
    from create_slot_free[OF this, of u'] obtain a' s2 where
      c: "create s1 today u' d3 = (Response 201 (AppointmentBody a'), s2)" and
      i: "insert_row s1 u' (data_category d3) (data_date d3) (data_time d3) (data_duration d3) False
            = (a', s2)"
      by blast
    from insert_row_appointments[OF i] c show ?thesis by (simp add: data_slot_def)
  qed
  from one second third show ?thesis by blast
qed

text \<open>C4, witness: category 1 is booked in \<open>db0\<close>; then category 1 again, and category 2.\<close>

theorem double_booking_rejected_witness:
  "unique_together (appointments db0) \<and>
   create db0 100 7 (booking 1 60) =
     (Response 201 (AppointmentBody appt1), db0\<lparr>appointments := [appt1], next_appointment_pk := 2\<rparr>) \<and>
   (\<exists>e. create (db0\<lparr>appointments := [appt1], next_appointment_pk := 2\<rparr>) 99 8 (booking 1 15) =
          (Response 400 (ValidationErrors e), db0\<lparr>appointments := [appt1], next_appointment_pk := 2\<rparr>) \<and>
        slot_conflict e) \<and>
   (\<exists>a' s2. create (db0\<lparr>appointments := [appt1], next_appointment_pk := 2\<rparr>) 100 8 (booking 2 30) =
          (Response 201 (AppointmentBody a'), s2) \<and> slot a' = data_slot (booking 2 30))"
proof -
  have h1: "unique_together (appointments db0)"
    by (simp add: unique_together_def db0_def)
  have h2: "create db0 100 7 (booking 1 60) =
     (Response 201 (AppointmentBody appt1), db0\<lparr>appointments := [appt1], next_appointment_pk := 2\<rparr>)"
    by (simp add: create_def objects_create_def insert_row_def save_def to_db_def booking_def
      appt1_def db0_def validation_eval decimal_eval)
  note t = double_booking_rejected [OF h1 h2]
  have f: "field_errors 99 (booking 1 15) = []" "data_slot (booking 1 15) = data_slot (booking 1 60)"
    by (simp_all add: booking_def data_slot_def validation_eval)
  have g: "data_category (booking 2 30) \<noteq> data_category (booking 1 60) \<and>
      data_date (booking 2 30) = data_date (booking 1 60) \<and>
      data_time (booking 2 30) = data_time (booking 1 60) \<and>
      validate_duration (data_duration (booking 2 30)) \<and>
      appt_end (data_time (booking 2 30)) (data_duration (booking 2 30)) \<le> WORKING_HOURS_END \<and>
      \<not> slot_taken (appointments db0) (data_category (booking 2 30)) (data_date (booking 2 30))
          (data_time (booking 2 30))"
    by (simp add: booking_def db0_def validation_eval)
  from t f have a: "\<exists>e. create (db0\<lparr>appointments := [appt1], next_appointment_pk := 2\<rparr>) 99 8 (booking 1 15) =
          (Response 400 (ValidationErrors e), db0\<lparr>appointments := [appt1], next_appointment_pk := 2\<rparr>) \<and>
        slot_conflict e"
    by blast
  from t g have b: "\<exists>a' s2. create (db0\<lparr>appointments := [appt1], next_appointment_pk := 2\<rparr>) 100 8 (booking 2 30) =
          (Response 201 (AppointmentBody a'), s2) \<and> slot a' = data_slot (booking 2 30)"
    by blast
  from h1 h2 a b show ?thesis by blast
qed

section \<open>Checkout\<close>

lemma computed_price_45_60: "computed_price (cents 4500) 60 = cents 18000"
  by (simp add: decimal_eval)

lemma dec_add_0_18000: "dec_add (Decimal 0) (cents 18000) = cents 18000"
  by (simp add: dec_add_def dec_fix_def cents_def Decimal_def prec_def ndigits.simps Let_def)

lemma cart_total_db1:
  "cart_total db1 [citem1]
     = cents 18000"
  by (simp add: cart_total_def citem1_def db1_def db0_def computed_price_45_60 dec_add_0_18000)

text \<open>
  C6. When the provider fails, checkout answers 502 with the provider's error, and the
  order it had created is deleted with its items: the orders are those from before the
  checkout (only the primary-key counter has moved on), and the cart and the
  appointments are untouched. Primary keys are not reused: the next key is free.
\<close>

theorem checkout_provider_failure_rolls_back:
  assumes cart: "carts s u = Some its" and nonempty: "its \<noteq> []"
    and tot: "0 < coeff (cart_total s its)"
    and fresh: "orders s (next_order_pk s) = None"
    and fail: "stripe_create \<lparr>amount = dec_int (dec_mul (cart_total s its) (Decimal 100)),
                 currency = ''usd'', metadata_order_id = next_order_pk s,
                 metadata_user_id = u\<rparr> = Inl e"
  shows "checkout stripe_create s u =
           (Response 502 (ErrorMsg (''Stripe error: '' @ e)),
            s\<lparr>next_order_pk := Suc (next_order_pk s)\<rparr>) \<and>
         orders (snd (checkout stripe_create s u)) = orders s \<and>
         carts (snd (checkout stripe_create s u)) = carts s \<and>
         appointments (snd (checkout stripe_create s u)) = appointments s"
proof -
  from fresh have "(orders s)(next_order_pk s := None) = orders s"
    by (simp add: fun_upd_idem_iff)
  with assms have "checkout stripe_create s u =
           (Response 502 (ErrorMsg (''Stripe error: '' @ e)),
            s\<lparr>next_order_pk := Suc (next_order_pk s)\<rparr>)"
    by (simp add: checkout_def Let_def)
  then show ?thesis by simp
qed

text \<open>C6, witness: user 8 checks out in \<open>db1\<close> while the provider is down.\<close>

theorem checkout_provider_failure_rolls_back_witness:
  "carts db1 8 = Some [citem1] \<and>
   0 < coeff (cart_total db1
         [citem1]) \<and>
   orders db1 (next_order_pk db1) = None \<and>
   checkout stripe_down db1 8 =
     (Response 502 (ErrorMsg ''Stripe error: connection refused''), db1\<lparr>next_order_pk := 3\<rparr>) \<and>
   orders (snd (checkout stripe_down db1 8)) = orders db1"
proof -
  let ?its = "[citem1]"
  have h1: "carts db1 8 = Some ?its" by (simp add: db1_def)
  have h2: "?its \<noteq> []" by simp
  have h3: "0 < coeff (cart_total db1 ?its)" by (simp add: cart_total_db1 cents_def)
  have h4: "orders db1 (next_order_pk db1) = None" by (simp add: db1_def)
  have h5: "stripe_down \<lparr>amount = dec_int (dec_mul (cart_total db1 ?its) (Decimal 100)),
                 currency = ''usd'', metadata_order_id = next_order_pk db1,
                 metadata_user_id = 8\<rparr> = Inl ''connection refused''"
    by (simp add: stripe_down_def)
  have n: "Suc (next_order_pk db1) = 3" by (simp add: db1_def)
  from checkout_provider_failure_rolls_back [where stripe_create = stripe_down, OF h1 h2 h3 h4 h5]
    h1 h3 h4 n show ?thesis by simp
qed

lemma apply_mutation_orders: "orders (apply_mutation s m) = orders s"
  by (cases m) (simp_all add: set_price_def cart_post_def clear_cart_def Let_def
      split: sum.splits option.splits)

lemma foldl_mutation_orders: "orders (foldl apply_mutation s ms) = orders s"
  by (induction ms arbitrary: s) (simp_all add: apply_mutation_orders)

lemma checkout_created:
  assumes "checkout stripe_create s u = (Response 200 (CheckoutBody secret pk tot), s')"
  shows "\<exists>its sid. carts s u = Some its \<and> its \<noteq> [] \<and> tot = cart_total s its \<and>
           pk = next_order_pk s \<and>
           orders s' = (orders s)(pk \<mapsto>
              \<lparr>order_user = u, total_amount = to_db (cart_total s its), status = Pending,
               stripe_payment_intent_id = sid, items = map (snapshot s) its\<rparr>) \<and>
           carts s' = carts s \<and> appointments s' = appointments s \<and> categories s' = categories s"
  using assms
  by (auto simp: checkout_def Let_def split: option.splits if_splits sum.splits)

text \<open>
  C8. The order that a successful checkout creates stores the total and, for every item,
  the unit price and the total price computed from the catalog of that moment. A later
  price change, and any sequence of price changes and cart mutations, leaves the stored
  order, its total and its items as they are.
\<close>

theorem order_snapshot_frozen:
  assumes "checkout stripe_create s u = (Response 200 (CheckoutBody secret pk tot), s')"
  shows "\<exists>ord its. orders s' pk = Some ord \<and> carts s u = Some its \<and>
           total_amount ord = to_db (cart_total s its) \<and>
           map oi_unit_price (items ord) =
             map (\<lambda>it. to_db (price_per_15min (categories s (ci_category it)))) its \<and>
           map oi_total_price (items ord) =
             map (\<lambda>it. to_db (computed_price (price_per_15min (categories s (ci_category it)))
                                  (ci_duration it))) its \<and>
           orders (set_price s' c p) pk = Some ord \<and>
           orders (foldl apply_mutation s' ms) pk = Some ord"
proof -
  from checkout_created[OF assms] obtain its sid where
    c: "carts s u = Some its" and
    o: "orders s' = (orders s)(pk \<mapsto>
              \<lparr>order_user = u, total_amount = to_db (cart_total s its), status = Pending,
               stripe_payment_intent_id = sid, items = map (snapshot s) its\<rparr>)"
    by blast
  let ?ord = "\<lparr>order_user = u, total_amount = to_db (cart_total s its), status = Pending,
               stripe_payment_intent_id = sid, items = map (snapshot s) its\<rparr>"
  have "orders s' pk = Some ?ord" using o by simp
  moreover have "orders (set_price s' c p) pk = Some ?ord" using o by (simp add: set_price_def)
  moreover have "orders (foldl apply_mutation s' ms) pk = Some ?ord"
    using o by (simp add: foldl_mutation_orders)
  moreover have "map oi_unit_price (items ?ord) =
             map (\<lambda>it. to_db (price_per_15min (categories s (ci_category it)))) its"
    by (simp add: snapshot_def Let_def comp_def)
  moreover have "map oi_total_price (items ?ord) =
             map (\<lambda>it. to_db (computed_price (price_per_15min (categories s (ci_category it)))
                                  (ci_duration it))) its"
    by (simp add: snapshot_def Let_def comp_def)
  ultimately show ?thesis using c by auto
qed

lemma checkout_db1_response:
  "fst (checkout stripe_ok db1 8) = Response 200 (CheckoutBody ''cs_2'' 2 (cents 18000))"
proof -
  have c: "carts db1 8 =
      Some [citem1]"
    by (simp add: db1_def)
  have n: "next_order_pk db1 = 2" by (simp add: db1_def)
  show ?thesis
    by (simp add: checkout_def c n cart_total_db1 stripe_ok_def cents_def Let_def)
qed

text \<open>C8, witness: user 8 checks out in \<open>db1\<close>; then the price changes and the cart is emptied and refilled.\<close>

theorem order_snapshot_frozen_witness:
  "checkout stripe_ok db1 8 =
     (Response 200 (CheckoutBody ''cs_2'' 2 (cents 18000)), snd (checkout stripe_ok db1 8)) \<and>
   (\<exists>ord. orders (snd (checkout stripe_ok db1 8)) 2 = Some ord \<and>
      orders (set_price (snd (checkout stripe_ok db1 8)) 1 (cents 9900)) 2 = Some ord \<and>
      orders (foldl apply_mutation (snd (checkout stripe_ok db1 8))
                [SetPrice 1 (cents 9900), CartClear 8, CartAdd 100 8 (booking 1 30)]) 2 = Some ord)"
proof -
  have h: "checkout stripe_ok db1 8 =
     (Response 200 (CheckoutBody ''cs_2'' 2 (cents 18000)), snd (checkout stripe_ok db1 8))"
    using checkout_db1_response by (metis prod.collapse)
  from order_snapshot_frozen [OF h, of 1 "cents 9900"
      "[SetPrice 1 (cents 9900), CartClear 8, CartAdd 100 8 (booking 1 30)]"] h
  show ?thesis by blast
qed

section \<open>A slot held by an unpaid appointment\<close>




section \<open>Stored prices are exact\<close>

text \<open>
  The computed price can be off in the 28th digit, but far less than half a cent: the
  value a two-place column stores is the exact price, for every unit price that fits
  the column and every valid duration.
\<close>

lemma dec_val_powi: "dec_val d = of_int (coeff d) * 10 powi (expo d)"
proof (cases "0 \<le> expo d")
  case True
  then show ?thesis by (simp add: dec_val_def power_int_def)
next
  case False
  then have "(10::rat) powi expo d = inverse (10 ^ nat (- expo d))"
    by (simp add: power_int_def power_one_over inverse_eq_divide)
  with False show ?thesis by (simp add: dec_val_def divide_inverse)
qed

lemma ndigits_pos: "0 < ndigits c"
  by (simp add: ndigits.simps[of c])

lemma ndigits_bounds: "0 < c \<Longrightarrow> 10 ^ (ndigits c - 1) \<le> c \<and> c < 10 ^ ndigits c"
proof (induction c rule: ndigits.induct)
  case (1 n)
  show ?case
  proof (cases "n < 10")
    case True
    then have "ndigits n = 1" by (simp add: ndigits.simps[of n])
    with True "1.prems" show ?thesis by simp
  next
    case False
    then have pos: "0 < n div 10" by simp
    define m where "m = ndigits (n div 10)"
    from "1.IH"[OF False pos] have ih: "10 ^ (m - 1) \<le> n div 10" "n div 10 < 10 ^ m"
      by (simp_all add: m_def)
    have nd: "ndigits n = Suc m" using False by (simp add: ndigits.simps[of n] m_def)
    have mpos: "0 < m" by (simp add: m_def ndigits_pos)
    then obtain j where j: "m = Suc j" by (cases m) simp_all
    have "(10::int) ^ m \<le> 10 * (n div 10)" using ih(1) j by simp
    also have "\<dots> \<le> n" by simp
    finally have lo: "10 ^ (ndigits n - 1) \<le> n" using nd by simp
    have "n < 10 * (n div 10 + 1)" by simp
    also have "\<dots> \<le> 10 * 10 ^ m" using ih(2) by simp
    finally have "n < 10 ^ ndigits n" using nd by simp
    with lo show ?thesis by simp
  qed
qed

lemma rhe_error: "2 * \<bar>round_half_even c k * 10 ^ k - c\<bar> \<le> 10 ^ k"
proof -
  define p :: int where "p = 10 ^ k"
  define q where "q = c div p"
  define r where "r = c mod p"
  have p: "0 < p" by (simp add: p_def)
  have c: "c = q * p + r" by (simp add: q_def r_def div_mult_mod_eq)
  have r: "0 \<le> r" "r < p" using p by (simp_all add: r_def)
  have rhe: "round_half_even c k =
      (if 2 * r < p then q else if p < 2 * r then q + 1 else if even q then q else q + 1)"
    by (simp add: round_half_even_def Let_def p_def q_def r_def)
  consider "2 * r < p" | "p < 2 * r" | "2 * r = p" by linarith
  then have "2 * \<bar>round_half_even c k * p - c\<bar> \<le> p"
  proof cases
    case 1
    then have "round_half_even c k * p - c = - r" using rhe c by (simp add: algebra_simps)
    then have "\<bar>round_half_even c k * p - c\<bar> = r" using r by simp
    with 1 show ?thesis by simp
  next
    case 2
    then have "round_half_even c k * p - c = p - r" using rhe c by (simp add: algebra_simps)
    then have "\<bar>round_half_even c k * p - c\<bar> = p - r" using r by simp
    with 2 show ?thesis by simp
  next
    case 3
    then have "round_half_even c k = q \<or> round_half_even c k = q + 1" using rhe by simp
    then have "round_half_even c k * p - c = - r \<or> round_half_even c k * p - c = p - r"
      using c by (auto simp: algebra_simps)
    then have "\<bar>round_half_even c k * p - c\<bar> = r \<or> \<bar>round_half_even c k * p - c\<bar> = p - r"
      using r by auto
    with 3 show ?thesis by auto
  qed
  then show ?thesis by (simp add: p_def)
qed

lemma rhe_exact:
  assumes "2 * \<bar>c - N * 10 ^ k\<bar> < 10 ^ k"
  shows "round_half_even c k = N"
proof -
  let ?p = "10 ^ k :: int"
  have p: "0 < ?p" by simp
  define d where "d = c - N * ?p"
  have d: "2 * \<bar>d\<bar> < ?p" using assms by (simp add: d_def)
  show ?thesis
  proof (cases "0 \<le> d")
    case True
    have c: "c = ?p * N + d" by (simp add: d_def)
    from d True have rng: "0 \<le> d" "d < ?p" by simp_all
    have dv: "c div ?p = N" using int_div_pos_eq[OF c rng] .
    have md: "c mod ?p = d" using int_mod_pos_eq[OF c rng] .
    from d True have "2 * d < ?p" by simp
    with dv md show ?thesis by (simp add: round_half_even_def Let_def)
  next
    case False
    then have neg: "d < 0" by simp
    have c: "c = ?p * (N - 1) + (?p + d)" by (simp add: d_def algebra_simps)
    have rng: "0 \<le> ?p + d" "?p + d < ?p" using d neg by simp_all
    have dv: "c div ?p = N - 1" using int_div_pos_eq[OF c rng] .
    have md: "c mod ?p = ?p + d" using int_mod_pos_eq[OF c rng] .
    from d neg have "?p < 2 * (?p + d)" "\<not> 2 * (?p + d) < ?p" by simp_all
    with dv md show ?thesis by (simp add: round_half_even_def Let_def)
  qed
qed

lemma rhe_nonneg: "0 \<le> c \<Longrightarrow> 0 \<le> round_half_even c k"
proof -
  assume c: "0 \<le> c"
  have "0 \<le> c div 10 ^ k" using c by (simp add: pos_imp_zdiv_nonneg_iff)
  then show ?thesis by (simp add: round_half_even_def Let_def)
qed

lemma powi_add_nat: "(10::rat) powi (e + int k) = 10 powi e * 10 ^ k"
  by (simp add: power_int_add)

lemma powi_pos: "0 < (10::rat) powi e"
  by (simp add: power_int_def)

lemma ndigits_big: assumes "1 < ndigits c" shows "0 < c"
proof (rule ccontr)
  assume "\<not> 0 < c"
  then have "c < 10" by simp
  then have "ndigits c = 1" by (simp add: ndigits.simps[of c])
  with assms show False by simp
qed

lemma dec_fix_error:
  assumes nonneg: "0 \<le> coeff d"
  shows "0 \<le> coeff (dec_fix d) \<and>
         \<bar>dec_val (dec_fix d) - dec_val d\<bar> * (2 * 10 ^ 27) \<le> dec_val d"
proof (cases "prec < ndigits (coeff d)")
  case False
  with nonneg have "dec_fix d = d" by (simp add: dec_fix_def Let_def)
  moreover have "0 \<le> dec_val d" using nonneg powi_pos[of "expo d"]
    by (simp add: dec_val_powi)
  ultimately show ?thesis using nonneg by simp
next
  case True
  define c where "c = coeff d"
  define e where "e = expo d"
  define n where "n = ndigits c"
  define k where "k = n - prec"
  define r where "r = round_half_even c k"
  define P where "P = (10::rat) powi e"
  have P: "0 < P" by (simp add: P_def powi_pos)
  from True have n28: "28 < n" by (simp add: n_def c_def prec_def)
  then have k: "n = k + 28" "0 < k" by (simp_all add: k_def prec_def)
  have cpos: "0 < c" using ndigits_big[of c] n28 by (simp add: n_def)
  have r0: "0 \<le> r" using rhe_nonneg[of c k] cpos by (simp add: r_def)
  have lo: "10 ^ (k + 27) \<le> c" using ndigits_bounds[OF cpos] k
    by (simp add: n_def add.commute)
  have fx: "dec_fix d = (if \<bar>r\<bar> = 10 ^ prec then \<lparr>coeff = r div 10, expo = e + int k + 1\<rparr>
                         else \<lparr>coeff = r, expo = e + int k\<rparr>)"
    using True nonneg by (simp add: dec_fix_def Let_def c_def e_def n_def k_def r_def)
  have val: "dec_val (dec_fix d) = of_int r * (P * 10 ^ k)"
  proof (cases "\<bar>r\<bar> = 10 ^ prec")
    case True
    with r0 have r: "r = 10 ^ 28" by (simp add: prec_def)
    then have "r div 10 = 10 ^ 27" by simp
    with True fx have "dec_fix d = \<lparr>coeff = 10 ^ 27, expo = (e + int k) + 1\<rparr>"
      by (simp add: add.assoc)
    then have "dec_val (dec_fix d) = 10 ^ 27 * (10 powi ((e + int k) + 1))"
      by (simp add: dec_val_powi)
    also have "\<dots> = 10 ^ 27 * (10 powi (e + int k) * 10)"
      by (simp add: power_int_add)
    also have "\<dots> = 10 ^ 28 * (P * 10 ^ k)"
      by (simp add: powi_add_nat P_def)
    finally show ?thesis using r by simp
  next
    case False
    with fx have "dec_fix d = \<lparr>coeff = r, expo = e + int k\<rparr>" by simp
    then show ?thesis by (simp add: dec_val_powi powi_add_nat P_def)
  qed
  have v: "dec_val d = of_int c * P" by (simp add: dec_val_powi c_def e_def P_def)
  have "2 * \<bar>r * 10 ^ k - c\<bar> \<le> 10 ^ k" using rhe_error[of c k] by (simp add: r_def)
  then have "(of_int (2 * \<bar>r * 10 ^ k - c\<bar>) :: rat) \<le> of_int (10 ^ k)"
    by (simp only: of_int_le_iff)
  then have err: "2 * \<bar>of_int r * 10 ^ k - (of_int c :: rat)\<bar> \<le> 10 ^ k" by simp
  have "dec_val (dec_fix d) - dec_val d = (of_int r * 10 ^ k - of_int c) * P"
    using val v by (simp add: algebra_simps)
  then have "\<bar>dec_val (dec_fix d) - dec_val d\<bar> = \<bar>of_int r * 10 ^ k - of_int c\<bar> * P"
    using P by (simp add: abs_mult)
  then have "\<bar>dec_val (dec_fix d) - dec_val d\<bar> * (2 * 10 ^ 27) =
      (2 * \<bar>of_int r * 10 ^ k - of_int c\<bar>) * (10 ^ 27 * P)"
    by simp
  also have "\<dots> \<le> 10 ^ k * (10 ^ 27 * P)"
    using err P by (intro mult_right_mono) simp_all
  also have "\<dots> = of_int (10 ^ (k + 27)) * P" by (simp add: power_add)
  also have "\<dots> \<le> of_int c * P"
  proof (rule mult_right_mono)
    show "(of_int (10 ^ (k + 27)) :: rat) \<le> of_int c" using lo by (simp only: of_int_le_iff)
    show "0 \<le> P" using P by simp
  qed
  finally have "\<bar>dec_val (dec_fix d) - dec_val d\<bar> * (2 * 10 ^ 27) \<le> dec_val d"
    using v by simp
  moreover have "0 \<le> coeff (dec_fix d)"
  proof (cases "\<bar>r\<bar> = 10 ^ prec")
    case True
    with fx r0 show ?thesis by (simp add: pos_imp_zdiv_nonneg_iff)
  next
    case False
    with fx r0 show ?thesis by simp
  qed
  ultimately show ?thesis by simp
qed

lemma strip_to_ideal_value:
  "strip_to_ideal c e ideal = (c', e') \<Longrightarrow>
     (of_int c' :: rat) * 10 powi e' = of_int c * 10 powi e \<and> (0 \<le> c \<longrightarrow> 0 \<le> c')"
proof (induction c e ideal arbitrary: c' e' rule: strip_to_ideal.induct)
  case (1 c e ideal)
  show ?case
  proof (cases "e < ideal \<and> c mod 10 = 0")
    case True
    with "1.prems" have rec: "strip_to_ideal (c div 10) (e + 1) ideal = (c', e')"
      by (simp add: strip_to_ideal.simps[of c e ideal])
    from True have c: "c = 10 * (c div 10)" by presburger
    have "(of_int (c div 10) :: rat) * 10 powi (e + 1) = of_int (10 * (c div 10)) * 10 powi e"
      by (simp add: power_int_add)
    with c have "(of_int (c div 10) :: rat) * 10 powi (e + 1) = of_int c * 10 powi e" by simp
    moreover have "0 \<le> c \<longrightarrow> 0 \<le> c div 10" by (simp add: pos_imp_zdiv_nonneg_iff)
    ultimately show ?thesis using "1.IH"[OF True rec] by simp
  next
    case False
    with "1.prems" have "c' = c" "e' = e"
      by (simp_all add: strip_to_ideal.simps[of c e ideal])
    then show ?thesis by simp
  qed
qed

lemma dec_mul_error:
  assumes "0 \<le> coeff a" "0 \<le> coeff b"
  shows "0 \<le> coeff (dec_mul a b) \<and>
         \<bar>dec_val (dec_mul a b) - dec_val a * dec_val b\<bar> * (2 * 10 ^ 27)
           \<le> dec_val a * dec_val b"
proof -
  let ?p = "\<lparr>coeff = coeff a * coeff b, expo = expo a + expo b\<rparr>"
  have "0 \<le> coeff ?p" using assms by simp
  from dec_fix_error[OF this] have
    "0 \<le> coeff (dec_fix ?p) \<and> \<bar>dec_val (dec_fix ?p) - dec_val ?p\<bar> * (2 * 10 ^ 27) \<le> dec_val ?p" .
  moreover have "dec_val ?p = dec_val a * dec_val b"
    by (simp add: dec_val_powi power_int_add)
  ultimately show ?thesis by (simp add: dec_mul_def)
qed

lemma to_db_exact:
  assumes "\<bar>dec_val d - of_int N / 100\<bar> < 1 / 200"
  shows "to_db d = cents N"
proof (cases "- 2 \<le> expo d")
  case True
  define j where "j = nat (expo d + 2)"
  from True have e: "expo d = int j - 2" by (simp add: j_def)
  have "(10::rat) powi (int j - 2) = 10 ^ j / 100"
    by (simp add: power_int_diff)
  then have v: "dec_val d = of_int (coeff d * 10 ^ j) / 100"
    by (simp add: dec_val_powi e)
  from assms v have "\<bar>(of_int (coeff d * 10 ^ j) :: rat) - of_int N\<bar> < 1 / 2"
    by (simp add: abs_if field_simps split: if_splits)
  then have "\<bar>(of_int (coeff d * 10 ^ j - N) :: rat)\<bar> < 1" by simp
  then have "\<bar>coeff d * 10 ^ j - N\<bar> < 1"
    by (simp only: of_int_abs[symmetric] of_int_less_1_iff)
  then have "coeff d * 10 ^ j = N" by simp
  with True show ?thesis by (simp add: to_db_def cents_def j_def)
next
  case False
  define j where "j = nat (- 2 - expo d)"
  from False have e: "expo d = - 2 - int j" by (simp add: j_def)
  have "(10::rat) powi (- 2 - int j) = 1 / (100 * 10 ^ j)"
    by (simp add: power_int_diff power_int_minus_divide)
  then have v: "dec_val d = of_int (coeff d) / (100 * 10 ^ j)"
    by (simp add: dec_val_powi e)
  have p: "(0::rat) < 10 ^ j" by simp
  from assms v have "\<bar>(of_int (coeff d) :: rat) / (100 * 10 ^ j) - of_int N / 100\<bar> < 1 / 200"
    by simp
  moreover have "(of_int (coeff d) :: rat) / (100 * 10 ^ j) - of_int N / 100 =
      (of_int (coeff d) - of_int N * 10 ^ j) / (100 * 10 ^ j)"
    by (simp add: field_simps)
  ultimately have "\<bar>(of_int (coeff d) :: rat) - of_int N * 10 ^ j\<bar> / (100 * 10 ^ j) < 1 / 200"
    by (simp add: abs_divide del: of_int_diff)
  then have "2 * \<bar>(of_int (coeff d) :: rat) - of_int N * 10 ^ j\<bar> < 10 ^ j"
    using p by (simp add: field_simps)
  then have "(of_int (2 * \<bar>coeff d - N * 10 ^ j\<bar>) :: rat) < of_int (10 ^ j)" by simp
  then have "2 * \<bar>coeff d - N * 10 ^ j\<bar> < 10 ^ j" by (simp only: of_int_less_iff)
  from rhe_exact[OF this] False show ?thesis by (simp add: to_db_def cents_def j_def)
qed

lemma err_combine:
  fixes a p x P :: rat
  assumes "\<bar>p - x\<bar> \<le> P" "P * 10 ^ 28 \<le> x" "\<bar>a - p\<bar> * (2 * 10 ^ 27) \<le> p"
  shows "\<bar>a - x\<bar> * 10 ^ 27 \<le> x"
proof -
  have n27: "(10::rat) ^ 27 = 1000000000000000000000000000"
    and n28: "(10::rat) ^ 28 = 10000000000000000000000000000" by simp_all
  define u where "u = \<bar>a - p\<bar>"
  define w where "w = \<bar>p - x\<bar>"
  define v where "v = \<bar>a - x\<bar>"
  have tri: "v \<le> u + w" unfolding u_def w_def v_def by linarith
  have w: "w \<le> P" using assms(1) by (simp add: w_def)
  have u: "u * 2000000000000000000000000000 \<le> p" using assms(3) by (simp add: u_def n27)
  have P: "P * 10000000000000000000000000000 \<le> x" using assms(2) by (simp add: n28)
  have px: "p \<le> x + P" using assms(1) by linarith
  have w0: "0 \<le> w" by (simp add: w_def)
  from tri w u P px w0 have "v * 1000000000000000000000000000 \<le> x" by linarith
  then show ?thesis by (simp add: v_def n27)
qed

lemma err_combine2:
  fixes b a X :: rat
  assumes "\<bar>a - X\<bar> * 10 ^ 27 \<le> X" "\<bar>b - a\<bar> * (2 * 10 ^ 27) \<le> a"
  shows "\<bar>b - X\<bar> * 10 ^ 27 \<le> 2 * X"
proof -
  have n27: "(10::rat) ^ 27 = 1000000000000000000000000000" by simp
  define u where "u = \<bar>b - a\<bar>"
  define w where "w = \<bar>a - X\<bar>"
  define v where "v = \<bar>b - X\<bar>"
  have tri: "v \<le> u + w" unfolding u_def w_def v_def by linarith
  have w: "w * 1000000000000000000000000000 \<le> X" using assms(1) by (simp add: w_def n27)
  have u: "u * 2000000000000000000000000000 \<le> a" using assms(2) by (simp add: u_def n27)
  have w0: "0 \<le> w" by (simp add: w_def)
  have ax: "a \<le> X + w" unfolding w_def by linarith
  from tri w u ax w0 have "v * 1000000000000000000000000000 \<le> 2 * X" by linarith
  then show ?thesis by (simp add: v_def n27)
qed

lemma ndigits_15: "ndigits 15 = 2"
  by (simp add: ndigits.simps)

lemma ndigits_le_10: assumes "0 < n" "n < 10 ^ 10" shows "ndigits n \<le> 10"
proof -
  from ndigits_bounds[OF assms(1)] assms(2) have "(10::int) ^ (ndigits n - 1) < 10 ^ 10"
    by linarith
  then have "ndigits n - 1 < 10" by (simp only: power_strict_increasing_iff)
  then show ?thesis by simp
qed

lemma dec_div_15_error:
  assumes pos: "0 < n" and small: "n < 10 ^ 10"
  shows "0 \<le> coeff (dec_div (cents n) (Decimal 15)) \<and>
         \<bar>dec_val (dec_div (cents n) (Decimal 15)) - of_int n / 1500\<bar> * 10 ^ 27
           \<le> of_int n / 1500"
proof -
  define L where "L = ndigits n"
  define sh where "sh = 31 - L"
  define e where "e = - 2 - int sh"
  define num where "num = n * 10 ^ sh"
  define q where "q = num div 15"
  define r where "r = num mod 15"
  define P where "P = (10::rat) powi e"
  define x where "x = (of_int n :: rat) / 1500"
  have L: "0 < L" "L \<le> 10" using ndigits_pos[of n] ndigits_le_10[OF pos small]
    by (simp_all add: L_def)
  have shift: "int (ndigits 15) - int (ndigits n) + int prec + 1 = int sh"
    using L by (simp add: ndigits_15 prec_def sh_def L_def)
  have P: "0 < P" by (simp add: P_def powi_pos)
  have x0: "0 < x" using pos by (simp add: x_def)
  have numP: "of_int num * P = (of_int n :: rat) / 100"
  proof -
    have "(10::rat) powi (- 2 - int sh) = 1 / (100 * 10 ^ sh)"
      by (simp add: power_int_diff power_int_minus_divide)
    then show ?thesis by (simp add: num_def P_def e_def)
  qed
  have xq: "x = (of_int num / 15) * P"
    using numP by (simp add: x_def)
  have num_lo: "10 ^ 30 \<le> num"
  proof -
    from ndigits_bounds[OF pos] have lo: "10 ^ (L - 1) \<le> n" by (simp add: L_def)
    have "L - 1 + sh = 30" using L by (simp add: sh_def)
    then have "(10::int) ^ 30 = 10 ^ (L - 1) * 10 ^ sh" by (simp flip: power_add)
    also have "\<dots> \<le> n * 10 ^ sh"
    proof (rule mult_right_mono)
      show "10 ^ (L - 1) \<le> n" by (rule lo)
      show "(0::int) \<le> 10 ^ sh" by simp
    qed
    finally have "(10::int) ^ 30 \<le> n * 10 ^ sh" .
    then show ?thesis by (simp add: num_def)
  qed
  have qr: "num = 15 * q + r" "0 \<le> r" "r < 15"
    by (simp_all add: q_def r_def)
  have q0: "0 \<le> q" using num_lo by (simp add: q_def pos_imp_zdiv_nonneg_iff)
  have unfold: "dec_div (cents n) (Decimal 15) =
      (if r \<noteq> 0 then dec_fix \<lparr>coeff = (if q mod 5 = 0 then q + 1 else q), expo = e\<rparr>
       else (case strip_to_ideal q e (- 2) of (q', e') \<Rightarrow> dec_fix \<lparr>coeff = q', expo = e'\<rparr>))"
    using pos shift
    by (simp add: dec_div_def cents_def Decimal_def Let_def e_def num_def q_def r_def)
  show ?thesis
  proof (cases "r = 0")
    case True
    obtain q' e' where st: "strip_to_ideal q e (- 2) = (q', e')" by (metis surj_pair)
    from strip_to_ideal_value[OF st] q0 have
      sv: "(of_int q' :: rat) * 10 powi e' = of_int q * P" and q'0: "0 \<le> q'"
      by (simp_all add: P_def)
    from True qr have "num = 15 * q" by simp
    then have "(of_int num :: rat) / 15 = of_int q" by simp
    with xq sv have v: "dec_val \<lparr>coeff = q', expo = e'\<rparr> = x" by (simp add: dec_val_powi)
    have "0 \<le> coeff \<lparr>coeff = q', expo = e'\<rparr>" using q'0 by simp
    from dec_fix_error[OF this] v have
      "0 \<le> coeff (dec_fix \<lparr>coeff = q', expo = e'\<rparr>)"
      "\<bar>dec_val (dec_fix \<lparr>coeff = q', expo = e'\<rparr>) - x\<bar> * (2 * 10 ^ 27) \<le> x"
      by simp_all
    moreover have "dec_div (cents n) (Decimal 15) = dec_fix \<lparr>coeff = q', expo = e'\<rparr>"
      using unfold True st by simp
    ultimately show ?thesis using x0 by (simp add: x_def[symmetric])
  next
    case False
    define cq where "cq = (if q mod 5 = 0 then q + 1 else q)"
    have cq: "q \<le> cq" "cq \<le> q + 1" by (simp_all add: cq_def)
    have cq0: "0 \<le> coeff \<lparr>coeff = cq, expo = e\<rparr>" using q0 cq by simp
    have "(of_int num :: rat) = 15 * of_int q + of_int r" using qr(1) by simp
    then have frac: "(of_int num :: rat) / 15 = of_int q + of_int r / 15" by simp
    have r1: "(0::rat) \<le> of_int r / 15" "(of_int r :: rat) / 15 \<le> 1" using qr by simp_all
    from cq(1) have cqr1: "(of_int q :: rat) \<le> of_int cq" by (simp only: of_int_le_iff)
    from cq(2) have "(of_int cq :: rat) \<le> of_int (q + 1)" by (simp only: of_int_le_iff)
    then have cqr2: "(of_int cq :: rat) \<le> of_int q + 1" by simp
    note cqr = cqr1 cqr2
    have d1: "\<bar>(of_int cq :: rat) - of_int num / 15\<bar> \<le> 1" using frac r1 cqr by linarith
    have pv: "dec_val \<lparr>coeff = cq, expo = e\<rparr> = of_int cq * P" by (simp add: dec_val_powi P_def)
    have "dec_val \<lparr>coeff = cq, expo = e\<rparr> - x = (of_int cq - of_int num / 15) * P"
      using pv xq by (simp add: algebra_simps)
    then have "\<bar>dec_val \<lparr>coeff = cq, expo = e\<rparr> - x\<bar> = \<bar>of_int cq - of_int num / 15\<bar> * P"
      using P by (simp add: abs_mult)
    also have "\<dots> \<le> 1 * P" using d1 P by (intro mult_right_mono) simp_all
    finally have e1: "\<bar>dec_val \<lparr>coeff = cq, expo = e\<rparr> - x\<bar> \<le> P" by simp
    have "(10::rat) ^ 28 * 15 \<le> 10 ^ 30" by simp
    also have "\<dots> \<le> of_int num" using num_lo
      by (metis of_int_le_iff of_int_numeral of_int_power)
    finally have "(10::rat) ^ 28 \<le> of_int num / 15" by simp
    then have "10 ^ 28 * P \<le> (of_int num / 15) * P" using P by (intro mult_right_mono) simp_all
    then have e2: "P * 10 ^ 28 \<le> x" using xq by (simp add: mult.commute)
    from dec_fix_error[OF cq0] have
      f0: "0 \<le> coeff (dec_fix \<lparr>coeff = cq, expo = e\<rparr>)" and
      e3: "\<bar>dec_val (dec_fix \<lparr>coeff = cq, expo = e\<rparr>) - dec_val \<lparr>coeff = cq, expo = e\<rparr>\<bar>
             * (2 * 10 ^ 27) \<le> dec_val \<lparr>coeff = cq, expo = e\<rparr>"
      by simp_all
    have eq: "dec_div (cents n) (Decimal 15) = dec_fix \<lparr>coeff = cq, expo = e\<rparr>"
      using unfold False by (simp add: cq_def)
    from err_combine[OF e1 e2 e3] have
      "\<bar>dec_val (dec_fix \<lparr>coeff = cq, expo = e\<rparr>) - x\<bar> * 10 ^ 27 \<le> x" .
    with f0 eq show ?thesis by (simp add: x_def)
  qed
qed

lemma compute_price_zero: "to_db (compute_price (cents 0) D) = cents 0"
  by (simp add: compute_price_def dec_div_def dec_mul_def dec_fix_def to_db_def cents_def
      Decimal_def prec_def ndigits.simps[of 0] Let_def)

lemma stored_price_exact:
  assumes n0: "0 \<le> n" and small: "n < 10 ^ 10" and D: "validate_duration D"
  shows "to_db (compute_price (cents n) D) = cents (n * (D div 15))"
proof (cases "n = 0")
  case True
  then show ?thesis by (simp add: compute_price_zero)
next
  case False
  with n0 have pos: "0 < n" by simp
  define A where "A = dec_div (cents n) (Decimal 15)"
  define x where "x = (of_int n :: rat) / 1500"
  define X where "X = x * of_int D"
  define k where "k = D div 15"
  from D have Dk: "D = 15 * k" and Dpos: "0 < D" and Dle: "D \<le> 120"
    by (auto simp: k_def validate_duration_def)
  from dec_div_15_error[OF pos small] have A0: "0 \<le> coeff A"
    and A1: "\<bar>dec_val A - x\<bar> * 10 ^ 27 \<le> x" by (simp_all add: A_def x_def)
  have D0: "0 \<le> coeff (Decimal D)" using Dpos by (simp add: Decimal_def)
  have vD: "dec_val (Decimal D) = of_int D" by (simp add: dec_val_def Decimal_def)
  from dec_mul_error[OF A0 D0] vD have
    M: "\<bar>dec_val (dec_mul A (Decimal D)) - dec_val A * of_int D\<bar> * (2 * 10 ^ 27)
          \<le> dec_val A * of_int D"
    by simp
  have dpos: "(0::rat) < of_int D" using Dpos by simp
  have "\<bar>dec_val A * of_int D - X\<bar> = \<bar>dec_val A - x\<bar> * of_int D"
    using dpos by (simp add: X_def abs_mult flip: left_diff_distrib)
  then have "\<bar>dec_val A * of_int D - X\<bar> * 10 ^ 27 = (\<bar>dec_val A - x\<bar> * 10 ^ 27) * of_int D"
    by simp
  also have "\<dots> \<le> x * of_int D" using A1 dpos by (intro mult_right_mono) simp_all
  finally have A2: "\<bar>dec_val A * of_int D - X\<bar> * 10 ^ 27 \<le> X" by (simp add: X_def)
  from err_combine2[OF A2 M] have
    E: "\<bar>dec_val (dec_mul A (Decimal D)) - X\<bar> * 10 ^ 27 \<le> 2 * X" .
  have XN: "X = of_int (n * k) / 100" by (simp add: X_def x_def Dk)
  have "(of_int n :: rat) < 10 ^ 10" using small
    by (metis of_int_less_iff of_int_numeral of_int_power)
  moreover have "(of_int D :: rat) \<le> 120" using Dle by (metis of_int_le_iff of_int_numeral)
  ultimately have "(of_int n :: rat) * of_int D \<le> 10 ^ 10 * 120"
    using dpos pos by (intro mult_mono) simp_all
  then have Xb: "X \<le> 800000000" by (simp add: X_def x_def)
  have n27: "(10::rat) ^ 27 = 1000000000000000000000000000" by simp
  define v where "v = \<bar>dec_val (dec_mul A (Decimal D)) - X\<bar>"
  from E have "v * 1000000000000000000000000000 \<le> 2 * X" by (simp add: v_def n27)
  with Xb have "v < 1 / 200" by linarith
  then have "\<bar>dec_val (dec_mul A (Decimal D)) - of_int (n * k) / 100\<bar> < 1 / 200"
    by (simp add: v_def XN)
  from to_db_exact[OF this] show ?thesis by (simp add: compute_price_def A_def k_def)
qed

section \<open>The price of an appointment created at settlement\<close>

lemma snapshot_fields:
  "oi_category (snapshot s it) = ci_category it"
  "oi_duration (snapshot s it) = ci_duration it"
  "oi_total_price (snapshot s it) =
     to_db (computed_price (price_per_15min (categories s (ci_category it))) (ci_duration it))"
  by (simp_all add: snapshot_def Let_def)

lemma computed_price_eq: "computed_price p d = compute_price p d"
  by (simp add: computed_price_def compute_price_def)

text \<open>
  C9. When settlement links a new appointment to an order item, the appointment's stored
  price is computed by the save hook from the category's price in the catalog at
  settlement, not copied from the item. If the item was frozen at checkout under a
  different price of the category (both prices non-negative, both totals within the
  ten digits of the column), the appointment's stored price is the exact price under
  the new unit price, the item's total is the exact price under the old one, and the
  two differ.
\<close>

theorem settlement_price_from_current_catalog:
  assumes ord: "orders s pk = Some ord" and pend: "status ord = Pending"
    and i: "i < length (items ord)"
    and res: "post s (Some (succeeded (Some pk))) = (rsp, s')"
    and ord': "orders s' pk = Some ord'"
    and linked: "oi_appointment (items ord' ! i) \<noteq> oi_appointment (items ord ! i)"
  shows "\<exists>a \<in> set (appointments s').
           oi_appointment (items ord' ! i) = Some (appt_pk a) \<and>
           slot a = oi_slot (items ord ! i) \<and> appt_is_paid a \<and>
           appt_total_price a =
             to_db (compute_price (price_per_15min (categories s (oi_category (items ord ! i))))
                      (oi_duration (items ord ! i))) \<and>
           (\<forall>s0 it n0 n1.
              items ord ! i = snapshot s0 it \<and>
              price_per_15min (categories s0 (ci_category it)) = cents n0 \<and>
              price_per_15min (categories s (ci_category it)) = cents n1 \<and>
              n0 \<noteq> n1 \<and> 0 \<le> n0 \<and> 0 \<le> n1 \<and>
              n0 * (ci_duration it div 15) < 10 ^ 10 \<and> n1 * (ci_duration it div 15) < 10 ^ 10 \<and>
              validate_duration (ci_duration it) \<longrightarrow>
              appt_total_price a = cents (n1 * (ci_duration it div 15)) \<and>
              oi_total_price (items ord ! i) = cents (n0 * (ci_duration it div 15)) \<and>
              appt_total_price a \<noteq> oi_total_price (items ord ! i))"
proof -
  let ?s0 = "s\<lparr>orders := (orders s)(pk \<mapsto> ord\<lparr>status := Paid\<rparr>)\<rparr>"
  from post_succeeded_pending[OF ord pend] obtain s2 ois where
    loop: "create_appointments (order_user ord) ?s0 (items ord) = (s2, ois)" and
    p1: "post s (Some (succeeded (Some pk))) =
       (Response 200 StatusOk,
        clear_cart (s2\<lparr>orders := (orders s2)(pk \<mapsto> ord\<lparr>status := Paid, items := ois\<rparr>)\<rparr>)
          (order_user ord))"
    by blast
  from p1 res have s': "s' = clear_cart
      (s2\<lparr>orders := (orders s2)(pk \<mapsto> ord\<lparr>status := Paid, items := ois\<rparr>)\<rparr>) (order_user ord)"
    by simp
  then have "orders s' pk = Some (ord\<lparr>status := Paid, items := ois\<rparr>)"
    by (simp add: clear_cart_frame)
  with ord' have its: "items ord' = ois" by auto
  have apps: "appointments s' = appointments s2" using s' by (simp add: clear_cart_frame)
  from create_appointments_items[OF loop] i its linked obtain a where
    a: "a \<in> set (appointments s2)"
      "ois ! i = (items ord ! i)\<lparr>oi_appointment := Some (appt_pk a)\<rparr>"
      "slot a = oi_slot (items ord ! i)" "appt_is_paid a"
      "appt_total_price a =
         to_db (compute_price (price_per_15min (categories ?s0 (oi_category (items ord ! i))))
                  (oi_duration (items ord ! i)))"
    by auto
  have price: "appt_total_price a =
         to_db (compute_price (price_per_15min (categories s (oi_category (items ord ! i))))
                  (oi_duration (items ord ! i)))"
    using a(5) by simp
  have differs: "appt_total_price a = cents (n1 * (ci_duration it div 15)) \<and>
              oi_total_price (items ord ! i) = cents (n0 * (ci_duration it div 15)) \<and>
              appt_total_price a \<noteq> oi_total_price (items ord ! i)"
    if h: "items ord ! i = snapshot s0 it \<and>
              price_per_15min (categories s0 (ci_category it)) = cents n0 \<and>
              price_per_15min (categories s (ci_category it)) = cents n1 \<and>
              n0 \<noteq> n1 \<and> 0 \<le> n0 \<and> 0 \<le> n1 \<and>
              n0 * (ci_duration it div 15) < 10 ^ 10 \<and> n1 * (ci_duration it div 15) < 10 ^ 10 \<and>
              validate_duration (ci_duration it)"
    for s0 it n0 n1
  proof -
    from h have snap: "items ord ! i = snapshot s0 it"
      and p0: "price_per_15min (categories s0 (ci_category it)) = cents n0"
      and p1: "price_per_15min (categories s (ci_category it)) = cents n1"
      and ne: "n0 \<noteq> n1" and n0: "0 \<le> n0" and n1: "0 \<le> n1"
      and f0: "n0 * (ci_duration it div 15) < 10 ^ 10"
      and f1: "n1 * (ci_duration it div 15) < 10 ^ 10"
      and d: "validate_duration (ci_duration it)"
      by blast+
    from d have k: "1 \<le> ci_duration it div 15" by (auto simp: validate_duration_def)
    have "n0 * 1 \<le> n0 * (ci_duration it div 15)" using n0 k by (intro mult_left_mono) simp_all
    with f0 n0 have r0: "0 \<le> n0" "n0 < 10 ^ 10" by simp_all
    have "n1 * 1 \<le> n1 * (ci_duration it div 15)" using n1 k by (intro mult_left_mono) simp_all
    with f1 n1 have r1: "0 \<le> n1" "n1 < 10 ^ 10" by simp_all
    have paid: "oi_total_price (items ord ! i) = cents (n0 * (ci_duration it div 15))"
      using stored_price_exact[OF r0 d] p0 by (simp add: snap snapshot_fields computed_price_eq)
    have now: "appt_total_price a = cents (n1 * (ci_duration it div 15))"
      using stored_price_exact[OF r1 d] p1 price by (simp add: snap snapshot_fields)
    from d have "0 < ci_duration it div 15" by (auto simp: validate_duration_def)
    with ne have "n1 * (ci_duration it div 15) \<noteq> n0 * (ci_duration it div 15)" by simp
    with paid now show ?thesis by (simp add: cents_def)
  qed
  have link: "oi_appointment (items ord' ! i) = Some (appt_pk a)" using a(2) its by simp
  have mem: "a \<in> set (appointments s')" using a(1) apps by simp
  from differs have all: "\<forall>s0 it n0 n1.
              items ord ! i = snapshot s0 it \<and>
              price_per_15min (categories s0 (ci_category it)) = cents n0 \<and>
              price_per_15min (categories s (ci_category it)) = cents n1 \<and>
              n0 \<noteq> n1 \<and> 0 \<le> n0 \<and> 0 \<le> n1 \<and>
              n0 * (ci_duration it div 15) < 10 ^ 10 \<and> n1 * (ci_duration it div 15) < 10 ^ 10 \<and>
              validate_duration (ci_duration it) \<longrightarrow>
              appt_total_price a = cents (n1 * (ci_duration it div 15)) \<and>
              oi_total_price (items ord ! i) = cents (n0 * (ci_duration it div 15)) \<and>
              appt_total_price a \<noteq> oi_total_price (items ord ! i)"
    by blast
  from mem link a(3) a(4) price all show ?thesis by blast
qed

lemma to_db_cents: "to_db (cents n) = cents n"
  by (simp add: to_db_def cents_def)

lemma item1_snapshot: "item1 = snapshot db1 citem1"
  by (simp add: item1_def snapshot_def citem1_def db1_def db0_def to_db_cents
      computed_price_45_60)

lemma db3_price: "price_per_15min (categories db3 c) = (if c = 1 then cents 5000 else cents 4500)"
  by (simp add: db3_def set_price_def db1_def db0_def to_db_cents)

lemma db3_frame: "orders db3 = orders db1" "appointments db3 = []" "next_appointment_pk db3 = 1"
  "carts db3 = carts db1"
  by (simp_all add: db3_def set_price_def db1_def db0_def)

lemma price_5000_60: "to_db (compute_price (cents 5000) 60) = cents 20000"
  using stored_price_exact[of 5000 60] by (simp add: validate_duration_def)

lemma get_pending_db3: "get_pending db3 (Some 1) = Some (1, order1)"
  by (simp add: get_pending_def db3_frame db1_def order1_def del: One_nat_def)

lemma goc_db3:
  "get_or_create (db3\<lparr>orders := (orders db3)(1 \<mapsto> order1\<lparr>status := Paid\<rparr>)\<rparr>) 8 item1 =
      (\<lparr>appt_pk = 1, appt_user = 8, appt_category = 1, appt_date = 100,
        appt_time = dt_time 10 0, appt_duration = 60, appt_total_price = cents 20000,
        appt_is_paid = True\<rparr>,
       True,
       db3\<lparr>orders := (orders db3)(1 \<mapsto> order1\<lparr>status := Paid\<rparr>),
           appointments := [\<lparr>appt_pk = 1, appt_user = 8, appt_category = 1, appt_date = 100,
             appt_time = dt_time 10 0, appt_duration = 60, appt_total_price = cents 20000,
             appt_is_paid = True\<rparr>],
           next_appointment_pk := 2\<rparr>)"
  by (simp add: get_or_create_def insert_row_def save_def db3_frame db3_price item1_def
      price_5000_60 Let_def del: One_nat_def)

lemma post_db3_order:
  "orders (snd (post db3 (Some (succeeded (Some 1))))) 1 =
     Some (order1\<lparr>status := Paid, items := [item1\<lparr>oi_appointment := Some 1\<rparr>]\<rparr>)"
proof -
  have its: "items order1 = [item1]" by (simp add: order1_def)
  have u: "order_user order1 = 8" by (simp add: order1_def)
  show ?thesis
    by (simp add: post_def succeeded_def get_pending_db3 its u goc_db3 clear_cart_frame Let_def
        del: One_nat_def)
qed

text \<open>C9, witness: order 1 was frozen at 45.00 per quarter hour and is settled at 50.00.\<close>

theorem settlement_price_from_current_catalog_witness:
  "orders db3 1 = Some order1 \<and> status order1 = Pending \<and> 0 < length (items order1) \<and>
   orders (snd (post db3 (Some (succeeded (Some 1))))) 1 =
     Some (order1\<lparr>status := Paid, items := [item1\<lparr>oi_appointment := Some 1\<rparr>]\<rparr>) \<and>
   (\<exists>a \<in> set (appointments (snd (post db3 (Some (succeeded (Some 1)))))).
      appt_total_price a = cents 20000 \<and> oi_total_price item1 = cents 18000 \<and>
      appt_total_price a \<noteq> oi_total_price item1)"
proof -
  let ?ord' = "order1\<lparr>status := Paid, items := [item1\<lparr>oi_appointment := Some 1\<rparr>]\<rparr>"
  have h1: "orders db3 1 = Some order1" by (simp add: db3_frame db1_def)
  have h2: "status order1 = Pending" by (simp add: order1_def)
  have h3: "0 < length (items order1)" by (simp add: order1_def)
  have h4: "post db3 (Some (succeeded (Some 1))) =
      (fst (post db3 (Some (succeeded (Some 1)))), snd (post db3 (Some (succeeded (Some 1)))))"
    by simp
  have h5: "orders (snd (post db3 (Some (succeeded (Some 1))))) 1 = Some ?ord'"
    by (rule post_db3_order)
  have h6: "oi_appointment (items ?ord' ! 0) \<noteq> oi_appointment (items order1 ! 0)"
    by (simp add: order1_def item1_def)
  from settlement_price_from_current_catalog [OF h1 h2 h3 h4 h5 h6]
  obtain a where a: "a \<in> set (appointments (snd (post db3 (Some (succeeded (Some 1))))))"
    and all: "\<forall>s0 it n0 n1.
        items order1 ! 0 = snapshot s0 it \<and>
        price_per_15min (categories s0 (ci_category it)) = cents n0 \<and>
        price_per_15min (categories db3 (ci_category it)) = cents n1 \<and>
        n0 \<noteq> n1 \<and> 0 \<le> n0 \<and> 0 \<le> n1 \<and>
              n0 * (ci_duration it div 15) < 10 ^ 10 \<and> n1 * (ci_duration it div 15) < 10 ^ 10 \<and>
        validate_duration (ci_duration it) \<longrightarrow>
        appt_total_price a = cents (n1 * (ci_duration it div 15)) \<and>
        oi_total_price (items order1 ! 0) = cents (n0 * (ci_duration it div 15)) \<and>
        appt_total_price a \<noteq> oi_total_price (items order1 ! 0)"
    by blast
  have p1: "items order1 ! 0 = snapshot db1 citem1" by (simp add: order1_def item1_snapshot)
  have p2: "price_per_15min (categories db1 (ci_category citem1)) = cents 4500"
    by (simp add: db1_def db0_def)
  have p3: "price_per_15min (categories db3 (ci_category citem1)) = cents 5000"
    by (simp add: db3_price citem1_def)
  have p4: "validate_duration (ci_duration citem1)"
    by (simp add: citem1_def validate_duration_def)
  have p5: "(4500::int) \<noteq> 5000 \<and> (0::int) \<le> 4500 \<and> (0::int) \<le> 5000 \<and>
        4500 * (ci_duration citem1 div 15) < 10 ^ 10 \<and>
        5000 * (ci_duration citem1 div 15) < 10 ^ 10"
    by (simp add: citem1_def)
  from p1 p2 p3 p4 p5
  have pre: "items order1 ! 0 = snapshot db1 citem1 \<and>
        price_per_15min (categories db1 (ci_category citem1)) = cents 4500 \<and>
        price_per_15min (categories db3 (ci_category citem1)) = cents 5000 \<and>
        (4500::int) \<noteq> 5000 \<and> (0::int) \<le> 4500 \<and> (0::int) \<le> 5000 \<and>
        4500 * (ci_duration citem1 div 15) < 10 ^ 10 \<and>
        5000 * (ci_duration citem1 div 15) < 10 ^ 10 \<and>
        validate_duration (ci_duration citem1)"
    by blast
  from all [rule_format, of db1 citem1 4500 5000, OF pre]
  have q1: "appt_total_price a = cents (5000 * (ci_duration citem1 div 15))"
    and q2: "oi_total_price (items order1 ! 0) = cents (4500 * (ci_duration citem1 div 15))"
    and q3: "appt_total_price a \<noteq> oi_total_price (items order1 ! 0)"
    by blast+
  have r1: "appt_total_price a = cents 20000" using q1 by (simp add: citem1_def)
  have r2: "oi_total_price item1 = cents 18000" using q2 by (simp add: citem1_def order1_def)
  have r3: "appt_total_price a \<noteq> oi_total_price item1" using q3 by (simp add: order1_def)
  from a h1 h2 h3 h5 r1 r2 r3 show ?thesis by blast
qed

end
